theory Spec2Isabelle
  imports Main "HOL-Library.Sublist"
begin

section \<open>Python strings\<close>

text \<open>
  The assessment engine of \<^verbatim>\<open>backend/app/main.py\<close> works on Python \<^verbatim>\<open>str\<close> values.
  A string is modelled as a \<^typ>\<open>string\<close> whose characters are the code points below 256;
  the character predicates below are CPython's for that range
  (\<^verbatim>\<open>str.isspace\<close>, \<^verbatim>\<open>str.isdecimal\<close>, \<^verbatim>\<open>str.isdigit\<close>,
  \<^verbatim>\<open>str.isalpha\<close>, \<^verbatim>\<open>str.isnumeric\<close>, \<^verbatim>\<open>str.lower\<close>).
  Python's \<^verbatim>\<open>k in s\<close> on strings is \<^const>\<open>sublist\<close>.
\<close>

definition py_isspace :: "char \<Rightarrow> bool" where
  "py_isspace c =
     (let n = (of_char c :: nat)
      in (9 \<le> n \<and> n \<le> 13) \<or> (28 \<le> n \<and> n \<le> 32) \<or> n = 133 \<or> n = 160)"

definition py_isdecimal :: "char \<Rightarrow> bool" where
  "py_isdecimal c = (let n = (of_char c :: nat) in 48 \<le> n \<and> n \<le> 57)"

text \<open>Superscript two, three and one are digits for \<^verbatim>\<open>str.isdigit\<close> but not decimals.\<close>

definition py_isdigit :: "char \<Rightarrow> bool" where
  "py_isdigit c =
     (let n = (of_char c :: nat) in py_isdecimal c \<or> n = 178 \<or> n = 179 \<or> n = 185)"

definition py_isnumeric :: "char \<Rightarrow> bool" where
  "py_isnumeric c = (let n = (of_char c :: nat) in py_isdigit c \<or> (188 \<le> n \<and> n \<le> 190))"

definition py_isalpha :: "char \<Rightarrow> bool" where
  "py_isalpha c =
     (let n = (of_char c :: nat)
      in (65 \<le> n \<and> n \<le> 90) \<or> (97 \<le> n \<and> n \<le> 122) \<or> n = 170 \<or> n = 181 \<or> n = 186
         \<or> (192 \<le> n \<and> n \<le> 214) \<or> (216 \<le> n \<and> n \<le> 246) \<or> 248 \<le> n)"

text \<open>The word characters of \<^verbatim>\<open>\w\<close> and \<^verbatim>\<open>\b\<close>: alphanumeric or underscore.\<close>

definition is_word :: "char \<Rightarrow> bool" where
  "is_word c =
     (py_isalpha c \<or> py_isdecimal c \<or> py_isdigit c \<or> py_isnumeric c \<or> c = CHR ''_'')"

definition lower_char :: "char \<Rightarrow> char" where
  "lower_char c =
     (let n = (of_char c :: nat)
      in if (65 \<le> n \<and> n \<le> 90) \<or> (192 \<le> n \<and> n \<le> 222 \<and> n \<noteq> 215)
         then char_of (n + 32) else c)"

definition lower :: "string \<Rightarrow> string" where
  "lower s = map lower_char s"

definition strip :: "string \<Rightarrow> string" where
  "strip s = rev (dropWhile py_isspace (rev (dropWhile py_isspace s)))"

text \<open>\<^verbatim>\<open>sep.join(xs)\<close>\<close>

fun join :: "string \<Rightarrow> string list \<Rightarrow> string" where
  "join sep [] = []"
| "join sep [x] = x"
| "join sep (x # y # ys) = x @ sep @ join sep (y # ys)"

definition isdigit :: "string \<Rightarrow> bool" where
  "isdigit s = (s \<noteq> [] \<and> list_all py_isdigit s)"

datatype error = ValueError | IndexError

definition digit_val :: "char \<Rightarrow> int" where
  "digit_val c = int (of_char c) - 48"

text \<open>
  \<^verbatim>\<open>int(s)\<close> on the strings the parser passes to it: a run of \<^verbatim>\<open>\d\<close> characters or a
  string for which \<^verbatim>\<open>isdigit()\<close> holds. A character that is not a decimal digit makes
  \<^verbatim>\<open>int\<close> raise \<^verbatim>\<open>ValueError\<close>. The interpreter's limit on the number of digits is
  not modelled.
\<close>

definition py_int :: "string \<Rightarrow> error + int" where
  "py_int s =
     (if s \<noteq> [] \<and> list_all py_isdecimal s
      then Inr (foldl (\<lambda>a c. 10 * a + digit_val c) 0 s)
      else Inl ValueError)"

text \<open>\<^verbatim>\<open>str(n)\<close> for an integer, as the f-strings use it.\<close>

fun str_nat :: "nat \<Rightarrow> string" where
  "str_nat n = (if n < 10 then [char_of (48 + n)] else str_nat (n div 10) @ [char_of (48 + n mod 10)])"

definition str_int :: "int \<Rightarrow> string" where
  "str_int i = (if i < 0 then CHR ''-'' # str_nat (nat (- i)) else str_nat (nat i))"

section \<open>Regular expressions\<close>

text \<open>
  The fragment of \<^verbatim>\<open>re\<close> that the patterns of the source use. Matching is backtracking:
  \<^term>\<open>rmatch r st\<close> lists the states in which a match of \<open>r\<close> started in \<open>st\<close> can end,
  in the order in which the backtracking matcher tries them, so its head is the match Python
  reports. A state holds the character before the current position (for \<^verbatim>\<open>\b\<close>),
  the rest of the input and the groups closed so far.
\<close>

datatype cclass = Digit | Space | OneOf string

fun in_class :: "cclass \<Rightarrow> char \<Rightarrow> bool" where
  "in_class Digit c = py_isdecimal c"
| "in_class Space c = py_isspace c"
| "in_class (OneOf cs) c = (c \<in> set cs)"

datatype regex =
    Lit string
  | Cls cclass
  | Star cclass
  | Plus cclass
  | WordB
  | Seq regex regex
  | Alt regex regex
  | Opt regex
  | Grp regex

type_synonym mstate = "char option \<times> string \<times> string list"

definition at_boundary :: "char option \<Rightarrow> string \<Rightarrow> bool" where
  "at_boundary prev rest =
     ((case prev of None \<Rightarrow> False | Some c \<Rightarrow> is_word c)
      \<noteq> (case rest of [] \<Rightarrow> False | c # _ \<Rightarrow> is_word c))"

fun last_opt :: "char option \<Rightarrow> string \<Rightarrow> char option" where
  "last_opt prev [] = prev"
| "last_opt prev (c # cs) = last_opt (Some c) cs"

text \<open>Greedy repetition of a character class: the longest run first, then shorter ones.\<close>

fun star :: "cclass \<Rightarrow> mstate \<Rightarrow> mstate list" where
  "star k (prev, [], gs) = [(prev, [], gs)]"
| "star k (prev, c # cs, gs) =
     (if in_class k c then star k (Some c, cs, gs) @ [(prev, c # cs, gs)]
      else [(prev, c # cs, gs)])"

fun rmatch :: "regex \<Rightarrow> mstate \<Rightarrow> mstate list" where
  "rmatch (Lit w) (prev, s, gs) =
     (if prefix w s then [(last_opt prev w, drop (length w) s, gs)] else [])"
| "rmatch (Cls k) (prev, s, gs) =
     (case s of [] \<Rightarrow> [] | c # cs \<Rightarrow> if in_class k c then [(Some c, cs, gs)] else [])"
| "rmatch (Star k) st = star k st"
| "rmatch (Plus k) (prev, s, gs) =
     (case s of [] \<Rightarrow> [] | c # cs \<Rightarrow> if in_class k c then star k (Some c, cs, gs) else [])"
| "rmatch WordB (prev, s, gs) = (if at_boundary prev s then [(prev, s, gs)] else [])"
| "rmatch (Seq a b) st = concat (map (rmatch b) (rmatch a st))"
| "rmatch (Alt a b) st = rmatch a st @ rmatch b st"
| "rmatch (Opt a) st = rmatch a st @ [st]"
| "rmatch (Grp a) (prev, s, gs) =
     map (\<lambda>(prev', s', gs'). (prev', s', gs' @ [take (length s - length s') s]))
       (rmatch a (prev, s, gs))"

text \<open>
  \<^verbatim>\<open>re.search\<close>: the first position, from the left, at which the pattern matches; the
  result is the list of the groups of that match.
\<close>

fun search_at :: "regex \<Rightarrow> char option \<Rightarrow> string \<Rightarrow> string list option" where
  "search_at r prev [] = (case rmatch r (prev, [], []) of [] \<Rightarrow> None | (_, _, gs) # _ \<Rightarrow> Some gs)"
| "search_at r prev (c # cs) =
     (case rmatch r (prev, c # cs, []) of
        [] \<Rightarrow> search_at r (Some c) cs
      | (_, _, gs) # _ \<Rightarrow> Some gs)"

definition re_search :: "regex \<Rightarrow> string \<Rightarrow> string list option" where
  "re_search r s = search_at r None s"

section \<open>The request and the response\<close>

record request =
  feature_name :: string
  feature_description :: string
  product_area :: "string option"
  jurisdictions :: "string list option"
  data_subjects :: "string list option"
  data_categories :: "string list option"
  processing_operations :: "string list option"
  purposes :: "string list option"
  lawful_basis_candidate :: "string option"
  retention :: "string option"
  vendors_involved :: "bool option"
  cross_border_transfers :: "string option"
  risk_appetite :: "string option"
  open_questions :: "string option"

record risk_item =
  id_risk :: string
  title :: string
  gdpr_principle :: string
  impact :: string
  likelihood :: string
  matched_on :: string
  score :: int
  description :: "string option"

record response =
  decision :: string
  reasons :: "string list"
  conditions :: "string list"
  risks :: "risk_item list"
  markdown :: string

text \<open>\<^verbatim>\<open>x or []\<close> on an optional list, \<^verbatim>\<open>x or ""\<close> on an optional string, and the
  truth value of an optional string or flag.\<close>

definition or_nil :: "'a list option \<Rightarrow> 'a list" where
  "or_nil x = (case x of None \<Rightarrow> [] | Some xs \<Rightarrow> xs)"

definition truthy :: "string option \<Rightarrow> bool" where
  "truthy x = (case x of None \<Rightarrow> False | Some s \<Rightarrow> s \<noteq> [])"

definition flag :: "bool option \<Rightarrow> bool" where
  "flag x = (case x of None \<Rightarrow> False | Some b \<Rightarrow> b)"

section \<open>Signal inference\<close>

subsection \<open>Retention\<close>

fun seqs :: "regex list \<Rightarrow> regex" where
  "seqs [] = Lit []"
| "seqs [r] = r"
| "seqs (r # rs) = Seq r (seqs rs)"

fun alts :: "regex list \<Rightarrow> regex" where
  "alts [] = Lit []"
| "alts [r] = r"
| "alts (r # rs) = Alt r (alts rs)"

text \<open>\<^verbatim>\<open>(\d+)\s*(day|days|d)\b\<close>, \<^verbatim>\<open>(\d+)\s*(month|months|m)\b\<close> and
  \<^verbatim>\<open>(\d+)\s*(year|years|y)\b\<close>\<close>

definition unit_re :: "string list \<Rightarrow> regex" where
  "unit_re units = seqs [Grp (Plus Digit), Star Space, Grp (alts (map Lit units)), WordB]"

definition days_re :: regex where
  "days_re = unit_re [''day'', ''days'', ''d'']"

definition months_re :: regex where
  "months_re = unit_re [''month'', ''months'', ''m'']"

definition years_re :: regex where
  "years_re = unit_re [''year'', ''years'', ''y'']"

text \<open>\<^verbatim>\<open>int(m.group(1)) * k\<close>\<close>

definition group1_times :: "string list \<Rightarrow> int \<Rightarrow> error + int option" where
  "group1_times gs k =
     (case gs of
        [] \<Rightarrow> Inl IndexError
      | g # _ \<Rightarrow> (case py_int g of Inl e \<Rightarrow> Inl e | Inr n \<Rightarrow> Inr (Some (n * k))))"

definition parse_retention_days :: "string option \<Rightarrow> error + int option" where
  "parse_retention_days retention' =
     (case retention' of
        None \<Rightarrow> Inr None
      | Some r \<Rightarrow>
          if r = [] then Inr None
          else
            let s = lower (strip r) in
            if s = [] then Inr None
            else
              (case re_search days_re s of
                 Some gs \<Rightarrow> group1_times gs 1
               | None \<Rightarrow>
                (case re_search months_re s of
                   Some gs \<Rightarrow> group1_times gs 30
                 | None \<Rightarrow>
                     (case re_search years_re s of
                        Some gs \<Rightarrow> group1_times gs 365
                      | None \<Rightarrow>
                          if isdigit s
                          then (case py_int s of Inl e \<Rightarrow> Inl e | Inr n \<Rightarrow> Inr (Some n))
                          else Inr None))))"

subsection \<open>Special categories\<close>

definition mapping_keywords :: "string list" where
  "mapping_keywords =
     [''special category'', ''biometric'', ''health'', ''medical'', ''genetic'', ''religion'',
      ''political'', ''sexual'', ''union'', ''race'', ''ethnic'']"

fun has_special_category_data :: "string list \<Rightarrow> bool" where
  "has_special_category_data [] = False"
| "has_special_category_data (c # cs) =
     (let cl = lower (strip c)
      in if cl = [] then has_special_category_data cs
         else if list_ex (\<lambda>kw. sublist kw cl) mapping_keywords then True
         else has_special_category_data cs)"

subsection \<open>Training or reuse\<close>

text \<open>\<^verbatim>\<open>(training|train|fine[- ]?tune|finetune)\<close>\<close>

definition training_alt :: regex where
  "training_alt =
     Grp (alts [Lit ''training'', Lit ''train'',
                seqs [Lit ''fine'', Opt (Cls (OneOf ''- '')), Lit ''tune''],
                Lit ''finetune''])"

definition negation_patterns :: "regex list" where
  "negation_patterns =
     [seqs [WordB, Grp (alts [Lit ''no'', Lit ''not'', Lit ''without'']), Plus Space,
            Opt (Grp (seqs [Lit ''any'', Plus Space])), training_alt, WordB],
      seqs [WordB, Lit ''do not'', Plus Space, training_alt, WordB],
      seqs [WordB, Lit ''not'', Plus Space, Lit ''used'', Plus Space, Lit ''for'', Plus Space,
            Lit ''training'', WordB]]"

text \<open>
  The keyword list: each entry is the text of the keyword as the source writes it and the
  regular expression that \<^verbatim>\<open>re.search\<close> compiles from that text. The source tests
  \<^verbatim>\<open>" " in k\<close> on the text to choose between a substring test and a search.
\<close>

definition bs :: string where
  "bs = [CHR 0x5C]"

definition keyword_list :: "(string \<times> regex) list" where
  "keyword_list =
     [(bs @ ''btrain'' @ bs @ ''b'', seqs [WordB, Lit ''train'', WordB]),
      (bs @ ''bfine[- ]?tune'' @ bs @ ''b'',
         seqs [WordB, Lit ''fine'', Opt (Cls (OneOf ''- '')), Lit ''tune'', WordB]),
      (bs @ ''bfinetune'' @ bs @ ''b'', seqs [WordB, Lit ''finetune'', WordB]),
      (''improve the model'', Lit ''improve the model''),
      (''improve model'', Lit ''improve model''),
      (''model improvement'', Lit ''model improvement''),
      (''learn from'', Lit ''learn from''),
      (''reuse prompts'', Lit ''reuse prompts''),
      (''use prompts to improve'', Lit ''use prompts to improve''),
      (''use logs to improve'', Lit ''use logs to improve''),
      (''use logs for training'', Lit ''use logs for training'')]"

definition keyword_hit :: "string \<Rightarrow> string \<times> regex \<Rightarrow> bool" where
  "keyword_hit haystack k =
     (if sublist '' '' (fst k) then sublist (fst k) haystack
      else re_search (snd k) haystack \<noteq> None)"

definition infer_training_or_reuse :: "string \<Rightarrow> string list \<Rightarrow> string list \<Rightarrow> bool" where
  "infer_training_or_reuse feature_description' processing_operations' purposes' =
     (let ops = lower (join '' '' processing_operations');
          desc = lower feature_description';
          p = lower (join '' '' purposes')
      in if sublist ''training'' ops \<or> sublist ''train'' ops then True
         else
           let haystack = desc @ '' '' @ p
           in if list_ex (\<lambda>pat. re_search pat haystack \<noteq> None) negation_patterns then False
              else list_ex (keyword_hit haystack) keyword_list)"

subsection \<open>Significant effects\<close>

definition significant_keywords :: "string list" where
  "significant_keywords =
     [''eligibility'', ''eligible'', ''access'', ''deny'', ''approve'', ''revoke'', ''suspend'',
      ''pricing'', ''price'', ''rate'', ''quote'', ''premium'', ''credit'', ''loan'',
      ''insurance'', ''admission'', ''selection'', ''employment'', ''termination'']"

definition infer_significant_effects ::
  "string \<Rightarrow> string option \<Rightarrow> string list \<Rightarrow> string list \<Rightarrow> bool" where
  "infer_significant_effects feature_description' product_area' purposes' processing_operations' =
     (let desc = lower feature_description';
          area = lower (case product_area' of None \<Rightarrow> [] | Some a \<Rightarrow> a);
          p = lower (join '' '' purposes');
          ops = lower (join '' '' processing_operations');
          profiling_signal =
            list_ex (\<lambda>x. sublist x p)
              [''personalization'', ''personalisation'', ''profiling'', ''targeting''];
          profiling_op_signal = sublist ''profil'' ops;
          significant_signal =
            (list_ex (\<lambda>k. sublist k desc) significant_keywords
             \<or> list_ex (\<lambda>k. sublist k area) significant_keywords)
      in profiling_signal \<or> profiling_op_signal \<or> significant_signal)"

section \<open>The signals of one request\<close>

text \<open>The local variables that \<^verbatim>\<open>assess\<close> computes from the request before it evaluates
  the risk patterns, each as a function of the request.\<close>

definition lower_subjects :: "request \<Rightarrow> string list" where
  "lower_subjects req = map lower (or_nil (data_subjects req))"

definition lower_categories :: "request \<Rightarrow> string list" where
  "lower_categories req = map lower (or_nil (data_categories req))"

definition lower_ops :: "request \<Rightarrow> string list" where
  "lower_ops req = map lower (or_nil (processing_operations req))"

definition lower_purposes :: "request \<Rightarrow> string list" where
  "lower_purposes req = map lower (or_nil (purposes req))"

definition has_minors :: "request \<Rightarrow> bool" where
  "has_minors req =
     list_ex (\<lambda>s. sublist ''child'' s \<or> sublist ''minor'' s \<or> sublist ''children'' s)
       (lower_subjects req)"

definition has_special_category :: "request \<Rightarrow> bool" where
  "has_special_category req = has_special_category_data (or_nil (data_categories req))"

definition retention_over_30 :: "int option \<Rightarrow> bool" where
  "retention_over_30 retention_days = (case retention_days of None \<Rightarrow> False | Some d \<Rightarrow> d > 30)"

definition lawful_basis_missing :: "request \<Rightarrow> bool" where
  "lawful_basis_missing req =
     (\<not> (case lawful_basis_candidate req of
           None \<Rightarrow> False
         | Some b \<Rightarrow> b \<noteq> [] \<and> strip b \<noteq> [] \<and> lower (strip b) \<notin> {''unknown'', ''unclear''}))"

definition content_like :: "request \<Rightarrow> bool" where
  "content_like req =
     list_ex (\<lambda>c. sublist ''content'' c \<or> sublist ''prompt'' c \<or> sublist ''free-text'' c
                 \<or> sublist ''free text'' c)
       (lower_categories req)"

definition logging_like :: "request \<Rightarrow> bool" where
  "logging_like req = list_ex (\<lambda>o'. sublist ''log'' o') (lower_ops req)"

definition content_logged :: "request \<Rightarrow> bool" where
  "content_logged req = (content_like req \<and> logging_like req)"

definition training_or_reuse :: "request \<Rightarrow> bool" where
  "training_or_reuse req =
     infer_training_or_reuse (feature_description req) (or_nil (processing_operations req))
       (or_nil (purposes req))"

definition has_automation :: "request \<Rightarrow> bool" where
  "has_automation req = list_ex (\<lambda>o'. sublist ''automated decision'' o') (lower_ops req)"

definition inferred_significant_effects :: "request \<Rightarrow> bool" where
  "inferred_significant_effects req =
     infer_significant_effects (feature_description req) (product_area req)
       (or_nil (purposes req)) (or_nil (processing_operations req))"

definition allowed_purposes :: "string set" where
  "allowed_purposes =
     {''safety & security'', ''safety / security'', ''safety'', ''security'',
      ''product improvement''}"

definition purpose_ok :: "request \<Rightarrow> bool" where
  "purpose_ok req = list_ex (\<lambda>p. p \<in> allowed_purposes) (lower_purposes req)"

definition retention_ok :: "int option \<Rightarrow> bool" where
  "retention_ok retention_days = (case retention_days of None \<Rightarrow> True | Some d \<Rightarrow> d \<le> 30)"

section \<open>Risk patterns\<close>

text \<open>
  The source appends to the lists \<^verbatim>\<open>risks\<close> and \<^verbatim>\<open>conditions\<close> while it goes through
  the patterns. Each pattern is modelled by what it appends: a list of risk items and a list
  of conditions; \<open>risk_patterns\<close> concatenates them in the order of the source.
  The two characters of the message texts that lie beyond code point 255 are written
  \<^verbatim>\<open><=\<close> (in the retention condition) and \<^verbatim>\<open>--\<close> (in the report lines); no function
  of the engine inspects a message text.
\<close>

type_synonym found = "risk_item list \<times> string list"

definition security_purpose :: "request \<Rightarrow> bool" where
  "security_purpose req =
     list_ex (\<lambda>p. sublist ''security'' p \<or> sublist ''safety'' p) (lower_purposes req)"

definition cross_border_ok :: "request \<Rightarrow> bool" where
  "cross_border_ok req =
     (cross_border_transfers req = None
      \<or> cross_border_transfers req \<in> {Some ''None'', Some ''Within EEA''})"

definition vendor_ok :: "request \<Rightarrow> bool" where
  "vendor_ok req = (\<not> flag (vendors_involved req))"

definition low_sensitivity :: "request \<Rightarrow> int option \<Rightarrow> bool" where
  "low_sensitivity req retention_days =
     (security_purpose req
      \<and> (case retention_days of None \<Rightarrow> False | Some d \<Rightarrow> d \<le> 30)
      \<and> \<not> training_or_reuse req
      \<and> cross_border_ok req
      \<and> vendor_ok req)"

definition content_sensitivity_low :: risk_item where
  "content_sensitivity_low =
     \<lparr>id_risk = ''content_sensitivity_low'',
      title = ''Content sensitivity risk (security logging with safeguards)'',
      gdpr_principle = ''Data minimisation; storage limitation; integrity and confidentiality'',
      impact = ''low'',
      likelihood = ''low'',
      matched_on = ''Free-text user content + logging selected (security purpose, short retention inferred)'',
      score = 2,
      description = Some ''Free-text logging appears limited to security/safety purposes with short retention and no training/reuse signals. Residual risk is treated as controlled, subject to continued enforcement of safeguards.''\<rparr>"

definition content_sensitivity :: risk_item where
  "content_sensitivity =
     \<lparr>id_risk = ''content_sensitivity'',
      title = ''Content sensitivity risk (free-text logging)'',
      gdpr_principle = ''Data minimisation; integrity and confidentiality'',
      impact = ''medium'',
      likelihood = ''medium'',
      matched_on = ''Free-text user content + logging selected'',
      score = 6,
      description = Some ''Logging free-text inputs increases the likelihood of capturing sensitive or confidential information and requires minimisation and access controls.''\<rparr>"

definition content_conditions :: "string list" where
  "content_conditions =
     [''Implement content logging minimisation (log only what is necessary; avoid storing raw prompts where possible).'',
      ''Apply redaction/PII filtering for logs and enforce strict access controls.'',
      ''Document purposes for logging and communicate it transparently to users (privacy notice / in-product disclosure).'']"

definition content_pattern :: "request \<Rightarrow> int option \<Rightarrow> found" where
  "content_pattern req retention_days =
     (if content_logged req
      then if low_sensitivity req retention_days
           then ([content_sensitivity_low], [])
           else ([content_sensitivity], content_conditions)
      else ([], []))"

definition storage_limitation :: "int \<Rightarrow> risk_item" where
  "storage_limitation d =
     \<lparr>id_risk = ''storage_limitation'',
      title = ''Storage limitation risk (retention > 30 days)'',
      gdpr_principle = ''Storage limitation'',
      impact = ''medium'',
      likelihood = ''high'',
      matched_on = ''Retention parsed as '' @ str_int d @ '' days'',
      score = 7,
      description = Some ''Retention beyond 30 days increases exposure and requires a necessity/proportionality justification aligned to stated purposes.''\<rparr>"

definition storage_condition :: string where
  "storage_condition =
     ''Reduce retention to <= 30 days or document a necessity/proportionality justification with safeguards (e.g., aggregation, minimisation).''"

definition storage_pattern :: "int option \<Rightarrow> found" where
  "storage_pattern retention_days =
     (case retention_days of
        None \<Rightarrow> ([], [])
      | Some d \<Rightarrow> if d > 30 then ([storage_limitation d], [storage_condition]) else ([], []))"

definition lawful_basis_uncertainty :: risk_item where
  "lawful_basis_uncertainty =
     \<lparr>id_risk = ''lawful_basis_uncertainty'',
      title = ''Lawful basis uncertainty'',
      gdpr_principle = ''Lawfulness, fairness and transparency'',
      impact = ''medium'',
      likelihood = ''medium'',
      matched_on = ''Lawful basis candidate missing/unknown'',
      score = 6,
      description = Some ''A credible lawful basis must be identified and documented before deployment.''\<rparr>"

definition lawful_basis_pattern :: "request \<Rightarrow> found" where
  "lawful_basis_pattern req =
     (if lawful_basis_missing req
      then ([lawful_basis_uncertainty],
            [''Define and document the lawful basis (and, where relevant, complete LIA/consent design) before launch.''])
      else ([], []))"

definition vendor_processor :: risk_item where
  "vendor_processor =
     \<lparr>id_risk = ''vendor_processor'',
      title = ''Third-party processor accountability'',
      gdpr_principle = ''Accountability; integrity and confidentiality'',
      impact = ''medium'',
      likelihood = ''medium'',
      matched_on = ''Vendors involved'',
      score = 6,
      description = Some ''Processor terms must cover instructions, security, retention, sub-processors, and auditability.''\<rparr>"

definition vendor_pattern :: "request \<Rightarrow> found" where
  "vendor_pattern req =
     (if flag (vendors_involved req)
      then ([vendor_processor],
            [''Verify vendor processor terms, sub-processor controls, retention commitments, and security due diligence.''])
      else ([], []))"

definition transfers_apply :: "request \<Rightarrow> bool" where
  "transfers_apply req =
     (truthy (cross_border_transfers req)
      \<and> cross_border_transfers req \<notin> {Some ''None'', Some ''Within EEA''})"

definition international_transfers :: "string \<Rightarrow> risk_item" where
  "international_transfers t =
     \<lparr>id_risk = ''international_transfers'',
      title = ''International transfers'',
      gdpr_principle = ''Lawfulness; accountability'',
      impact = ''medium'',
      likelihood = ''medium'',
      matched_on = ''Cross-border transfers: '' @ t,
      score = 6,
      description = Some ''Transfers require an appropriate mechanism and (where applicable) a transfer risk assessment per internal policy.''\<rparr>"

definition transfers_pattern :: "request \<Rightarrow> found" where
  "transfers_pattern req =
     (if transfers_apply req
      then ([international_transfers (case cross_border_transfers req of None \<Rightarrow> [] | Some t \<Rightarrow> t)],
            [''Confirm and document transfer mechanism (e.g., SCCs) and complete transfer risk assessment where required.''])
      else ([], []))"

definition training_or_reuse_user_content :: "bool \<Rightarrow> risk_item" where
  "training_or_reuse_user_content heightened =
     \<lparr>id_risk = ''training_or_reuse_user_content'',
      title = ''Training / reuse of user-provided content'',
      gdpr_principle = ''Purpose limitation; transparency; data minimisation'',
      impact = (if heightened then ''high'' else ''medium''),
      likelihood = ''medium'',
      matched_on = ''Training/reuse inferred from description or selected operations'',
      score = (if heightened then 8 else 6),
      description = Some ''Using prompts or user content to train or improve a model changes risk and governance expectations and requires explicit controls and transparency.''\<rparr>"

definition training_conditions :: "string list" where
  "training_conditions =
     [''Make training/reuse transparent in user-facing documentation and in-product disclosures, including consequences.'',
      ''Implement an opt-out (or obtain consent where required by internal policy) for training/reuse of user content.'',
      ''Minimise and protect training datasets (e.g., exclude sensitive content by default; apply filtering and access controls).'']"

definition training_pattern :: "request \<Rightarrow> found" where
  "training_pattern req =
     (if training_or_reuse req
      then ([training_or_reuse_user_content (has_special_category req \<or> has_minors req)],
            training_conditions)
      else ([], []))"

definition automation_significant_effects :: risk_item where
  "automation_significant_effects =
     \<lparr>id_risk = ''automation_significant_effects'',
      title = ''Automation with potentially significant effects'',
      gdpr_principle = ''Fairness; transparency; accountability'',
      impact = ''high'',
      likelihood = ''medium'',
      matched_on = ''Automation + significant-effects indicators inferred from purpose/product area/description'',
      score = 8,
      description = Some ''Automation appears linked to consequential decisions (e.g., access, eligibility, pricing) or profiling/personalisation; governance escalation is expected.''\<rparr>"

definition automation_advisory :: risk_item where
  "automation_advisory =
     \<lparr>id_risk = ''automation_advisory'',
      title = ''Automation present (no significant-effects indicators)'',
      gdpr_principle = ''Transparency; accountability'',
      impact = ''medium'',
      likelihood = ''medium'',
      matched_on = ''Automation selected without significant-effects indicators'',
      score = 6,
      description = Some ''Automation still requires clear explanations, meaningful human oversight, and a route to contest outcomes where relevant.''\<rparr>"

definition automation_conditions :: "string list" where
  "automation_conditions =
     [''Document the role of automation and implement meaningful human oversight in practice.'',
      ''Provide transparency about automation and a route to contest outcomes or request human review where relevant.'',
      ''Implement monitoring and periodic review to detect drift, bias, or unexpected impacts.'']"

definition automation_pattern :: "request \<Rightarrow> found" where
  "automation_pattern req =
     (if has_automation req \<and> inferred_significant_effects req
      then ([automation_significant_effects], [])
      else if has_automation req \<and> \<not> inferred_significant_effects req
      then ([automation_advisory], automation_conditions)
      else ([], []))"

definition risk_patterns :: "request \<Rightarrow> int option \<Rightarrow> found" where
  "risk_patterns req retention_days =
     (let found =
        [content_pattern req retention_days, storage_pattern retention_days,
         lawful_basis_pattern req, vendor_pattern req, transfers_pattern req,
         training_pattern req, automation_pattern req]
      in (concat (map fst found), concat (map snd found)))"

section \<open>Decision logic\<close>

definition material_risks :: "risk_item list \<Rightarrow> risk_item list" where
  "material_risks rs = filter (\<lambda>r. score r \<ge> 5 \<or> lower (impact r) \<in> {''medium'', ''high''}) rs"

definition reason_minors :: string where
  "reason_minors =
     ''Children/minors are within scope; heightened safeguards apply and escalation is required for governance review.''"

definition reason_special :: string where
  "reason_special =
     ''Special category data is indicated (including proxy categories such as biometric data); escalation is required.''"

definition reason_automation_escalate :: string where
  "reason_automation_escalate =
     ''Automation is present with indicators of similarly significant effects; escalation is required for governance review.''"

definition reason_conditions_generic :: string where
  "reason_conditions_generic =
     ''No automatic escalation trigger identified; however, one or more governance risks require documented safeguards before shipping.''"

definition reason_purpose :: string where
  "reason_purpose =
     ''Stated purposes do not clearly align with safety/security or product improvement; clarify purpose limitation and necessity.''"

definition condition_purpose :: string where
  "condition_purpose =
     ''Clarify and document the specific purpose(s) and ensure processing is limited to those purposes (purpose limitation).''"

definition reason_retention :: string where
  "reason_retention =
     ''Proposed retention exceeds 30 days; storage limitation requires a necessity/proportionality justification.''"

definition reason_automation_advisory :: string where
  "reason_automation_advisory =
     ''Automation is present without clear indicators of significant effects; transparency and oversight controls are required.''"

text \<open>The choice between the two shipping decisions, on the branch without escalation.\<close>

definition ship_criteria :: "request \<Rightarrow> int option \<Rightarrow> risk_item list \<Rightarrow> string list \<Rightarrow> string" where
  "ship_criteria req retention_days rs cs =
     (if \<not> retention_ok retention_days \<or> \<not> purpose_ok req then ''SHIP WITH CONDITIONS''
      else if has_automation req \<and> \<not> inferred_significant_effects req then ''SHIP WITH CONDITIONS''
      else if material_risks rs \<noteq> [] \<or> cs \<noteq> [] then ''SHIP WITH CONDITIONS''
      else ''SHIP'')"

text \<open>What the branch \<^verbatim>\<open>SHIP WITH CONDITIONS\<close> appends to the reasons and to the
  conditions.\<close>

definition with_conditions_reasons :: "request \<Rightarrow> int option \<Rightarrow> string list" where
  "with_conditions_reasons req retention_days =
     [reason_conditions_generic]
     @ (if \<not> purpose_ok req then [reason_purpose] else [])
     @ (if \<not> retention_ok retention_days then [reason_retention] else [])
     @ (if has_automation req \<and> \<not> inferred_significant_effects req
        then [reason_automation_advisory] else [])"

definition with_conditions_conditions :: "request \<Rightarrow> string list" where
  "with_conditions_conditions req = (if \<not> purpose_ok req then [condition_purpose] else [])"

definition ship_reasons :: "request \<Rightarrow> string list" where
  "ship_reasons req =
     [''No escalation triggers identified (no minors, no special category data, no significant-effects automation indicators).'',
      ''Retention is within 30 days and purposes align to safety/security or product improvement.'']
     @ (if content_logged req
        then [''Content logging appears limited to security/safety purposes with short retention and no training/reuse indicators.'']
        else [''On the provided inputs, residual risks appear proportionate and controlled for an internal governance workflow.''])"

text \<open>The decision, the reasons, and the conditions as they stand after the decision
  (before the clearing on escalation and the removal of duplicates).\<close>

definition decision_step ::
  "request \<Rightarrow> int option \<Rightarrow> risk_item list \<Rightarrow> string list \<Rightarrow> string \<times> string list \<times> string list" where
  "decision_step req retention_days rs cs =
     (if has_minors req then (''ESCALATE'', [reason_minors], cs)
      else if has_special_category req then (''ESCALATE'', [reason_special], cs)
      else if has_automation req \<and> inferred_significant_effects req
      then (''ESCALATE'', [reason_automation_escalate], cs)
      else
        let d = ship_criteria req retention_days rs cs
        in if d = ''SHIP'' then (d, ship_reasons req, cs)
           else (d, with_conditions_reasons req retention_days, cs @ with_conditions_conditions req))"

fun dedupe_loop :: "'a list \<Rightarrow> 'a set \<Rightarrow> 'a list \<Rightarrow> 'a list" where
  "dedupe_loop [] seen out = out"
| "dedupe_loop (x # xs) seen out =
     (if x \<notin> seen then dedupe_loop xs (insert x seen) (out @ [x]) else dedupe_loop xs seen out)"

definition dedupe_preserve_order :: "'a list \<Rightarrow> 'a list" where
  "dedupe_preserve_order items = dedupe_loop items {} []"

section \<open>Assumptions and follow-ups\<close>

definition assumption_unparsed :: string where
  "assumption_unparsed =
     ''Retention period could not be parsed; the assessment assumes retention is interpreted as provided by the feature team.''"

definition follow_up_unparsed :: string where
  "follow_up_unparsed =
     ''Confirm the exact retention period in days and whether automated deletion is enforced.''"

definition assumption_unspecified :: string where
  "assumption_unspecified =
     ''Retention period is not specified; the assessment assumes data is not retained beyond what is necessary for stated purposes.''"

definition follow_up_unspecified :: string where
  "follow_up_unspecified =
     ''Confirm the retention period and deletion mechanism for logs and user content.''"

definition retention_notes :: "request \<Rightarrow> int option \<Rightarrow> string list \<times> string list" where
  "retention_notes req retention_days =
     (if retention_days = None \<and> truthy (retention req)
      then ([assumption_unparsed], [follow_up_unparsed])
      else if retention_days = None
      then ([assumption_unspecified], [follow_up_unspecified])
      else ([], []))"

definition automation_notes :: "bool \<Rightarrow> bool \<Rightarrow> string list \<times> string list" where
  "automation_notes has_automation' inferred_significant_effects' =
     (if has_automation'
      then ([''Automation is present based on selected processing operations.''],
            if inferred_significant_effects'
            then [''Confirm whether automated outputs are used for access, eligibility, pricing, or other similarly significant decisions.'']
            else [''Confirm whether automation has any similarly significant effects for individuals (or is advisory only).'',
                  ''Confirm the human oversight workflow and how users can contest outcomes where relevant.''])
      else ([], []))"

definition training_notes :: "bool \<Rightarrow> string list \<times> string list" where
  "training_notes training_or_reuse' =
     (if training_or_reuse'
      then ([''Training/reuse of user content is inferred from provided inputs or description keywords.''],
            [''Confirm whether user content is used for training/reuse, the scope (opt-in/opt-out), and the default setting.'',
             ''Confirm minimisation measures for training datasets (e.g., filtering, exclusion of sensitive content).''])
      else ([], []))"

definition other_follow_ups :: "request \<Rightarrow> bool \<Rightarrow> string list" where
  "other_follow_ups req lawful_basis_missing' =
     (if lawful_basis_missing'
      then [''Confirm the lawful basis and record the rationale in the governance documentation.'']
      else [])
     @ (if flag (vendors_involved req)
        then [''Confirm vendor roles, data flows, and the status of processor terms and security due diligence.'']
        else [])
     @ (if transfers_apply req
        then [''Confirm transfer mechanism and whether a transfer risk assessment is required by internal policy.'']
        else [])"

definition build_assumptions_and_followups ::
  "request \<Rightarrow> int option \<Rightarrow> bool \<Rightarrow> bool \<Rightarrow> bool \<Rightarrow> bool \<Rightarrow> string list \<times> string list" where
  "build_assumptions_and_followups req retention_days has_automation'
       inferred_significant_effects' training_or_reuse' lawful_basis_missing' =
     (let r = retention_notes req retention_days;
          a = automation_notes has_automation' inferred_significant_effects';
          t = training_notes training_or_reuse'
      in (fst r @ fst a @ fst t,
          snd r @ snd a @ snd t @ other_follow_ups req lawful_basis_missing'))"

section \<open>The report\<close>

definition nl :: string where
  "nl = [CHR 0x0A]"

text \<open>\<^verbatim>\<open>"\n".join([f"- {x}" for x in xs]) or placeholder\<close>\<close>

definition bullet_lines :: "string list \<Rightarrow> string" where
  "bullet_lines xs = join nl (map (\<lambda>x. ''- '' @ x) xs)"

definition or_else :: "string \<Rightarrow> string \<Rightarrow> string" where
  "or_else s placeholder = (if s = [] then placeholder else s)"

definition risk_line :: "risk_item \<Rightarrow> string" where
  "risk_line r =
     ''- **'' @ title r @ ''** -- principle: '' @ gdpr_principle r @ '' (impact: '' @ impact r
     @ '', likelihood: '' @ likelihood r @ '') -- matched on: '' @ matched_on r"

definition rationale_section :: "string list \<Rightarrow> string" where
  "rationale_section reasons' = or_else (bullet_lines reasons') ''_None provided._''"

definition render_markdown ::
  "request \<Rightarrow> string \<Rightarrow> string list \<Rightarrow> risk_item list \<Rightarrow> string list \<Rightarrow> string list
     \<Rightarrow> string list \<Rightarrow> string" where
  "render_markdown req decision' reasons' risks' conditions' assumptions follow_ups =
     ''# AI Feature Risk Assessment'' @ nl @ nl
     @ ''## Executive summary'' @ nl
     @ ''**Decision:** '' @ decision' @ nl @ nl
     @ ''## Feature overview'' @ nl
     @ ''**Feature name:** '' @ feature_name req @ nl @ nl
     @ ''## Assumptions'' @ nl
     @ or_else (bullet_lines assumptions) ''_None._'' @ nl @ nl
     @ ''## Decision rationale'' @ nl
     @ rationale_section reasons' @ nl @ nl
     @ ''## Conditions (if applicable)'' @ nl
     @ or_else (bullet_lines conditions') ''_None._'' @ nl @ nl
     @ ''## Identified risks'' @ nl
     @ or_else (join nl (map risk_line risks')) ''_No risks returned._'' @ nl @ nl
     @ ''## Open questions / Follow-ups'' @ nl
     @ or_else (bullet_lines follow_ups) ''_None._'' @ nl"

section \<open>The assessment\<close>

text \<open>
  \<^verbatim>\<open>assess\<close>. The only call that can raise is the one to \<^verbatim>\<open>_parse_retention_days\<close>,
  made before any risk pattern is evaluated; its error is the result of the assessment.
  \<open>pending_conditions\<close> is the list \<^verbatim>\<open>conditions\<close> as it stands when the source passes
  it to \<^verbatim>\<open>_dedupe_preserve_order\<close>.
\<close>

definition pending_conditions :: "request \<Rightarrow> int option \<Rightarrow> string list" where
  "pending_conditions req retention_days =
     (let (rs, cs) = risk_patterns req retention_days;
          (d, why, cs') = decision_step req retention_days rs cs
      in if d = ''ESCALATE'' then [] else cs')"

definition report_notes :: "request \<Rightarrow> int option \<Rightarrow> string list \<times> string list" where
  "report_notes req retention_days =
     build_assumptions_and_followups req retention_days (has_automation req)
       (inferred_significant_effects req) (training_or_reuse req) (lawful_basis_missing req)"

definition respond :: "request \<Rightarrow> int option \<Rightarrow> response" where
  "respond req retention_days =
     (let (rs, cs) = risk_patterns req retention_days;
          (d, why, cs') = decision_step req retention_days rs cs;
          conditions' = dedupe_preserve_order (pending_conditions req retention_days);
          (assumptions, follow_ups) = report_notes req retention_days
      in \<lparr>decision = d, reasons = why, conditions = conditions', risks = rs,
          markdown = render_markdown req d why rs conditions' assumptions follow_ups\<rparr>)"

definition assess :: "request \<Rightarrow> error + response" where
  "assess req =
     (case parse_retention_days (retention req) of
        Inl e \<Rightarrow> Inl e
      | Inr retention_days \<Rightarrow> Inr (respond req retention_days))"

section \<open>Vocabulary of the properties\<close>

text \<open>Keeping the first occurrence of every element, in the order of the list.\<close>

fun first_occurrences :: "'a list \<Rightarrow> 'a list" where
  "first_occurrences [] = []"
| "first_occurrences (x # xs) = x # first_occurrences (filter (\<lambda>y. y \<noteq> x) xs)"

text \<open>A data subject names children or minors, in any case.\<close>

definition mentions_minors :: "request \<Rightarrow> bool" where
  "mentions_minors req =
     list_ex (\<lambda>s. list_ex (\<lambda>k. sublist k (lower s)) [''child'', ''minor'', ''children''])
       (or_nil (data_subjects req))"

text \<open>A data category contains a special-category keyword, in any case.\<close>

definition mentions_special_category :: "request \<Rightarrow> bool" where
  "mentions_special_category req =
     list_ex (\<lambda>c. list_ex (\<lambda>k. sublist k (lower c)) mapping_keywords)
       (or_nil (data_categories req))"

text \<open>The two content-sensitivity risks, by their identifiers.\<close>

definition is_content_risk :: "risk_item \<Rightarrow> bool" where
  "is_content_risk r =
     (id_risk r = ''content_sensitivity'' \<or> id_risk r = ''content_sensitivity_low'')"

text \<open>The stated condition for the low-sensitivity variant.\<close>

definition low_sensitivity_stated :: "request \<Rightarrow> int option \<Rightarrow> bool" where
  "low_sensitivity_stated req retention_days =
     (list_ex (\<lambda>p. sublist ''security'' (lower p) \<or> sublist ''safety'' (lower p))
        (or_nil (purposes req))
      \<and> (case retention_days of None \<Rightarrow> False | Some d \<Rightarrow> d \<le> 30)
      \<and> \<not> training_or_reuse req
      \<and> vendors_involved req \<noteq> Some True
      \<and> (cross_border_transfers req = None \<or> cross_border_transfers req = Some ''None''
         \<or> cross_border_transfers req = Some ''Within EEA''))"

text \<open>The conditions of the patterns after the content pattern.\<close>

definition later_conditions :: "request \<Rightarrow> int option \<Rightarrow> string list" where
  "later_conditions req rd =
     snd (storage_pattern rd) @ snd (lawful_basis_pattern req) @ snd (vendor_pattern req)
     @ snd (transfers_pattern req) @ snd (training_pattern req) @ snd (automation_pattern req)"

text \<open>Every condition that a pattern after the content pattern can add.\<close>

definition all_later_conditions :: "string list" where
  "all_later_conditions =
     [storage_condition,
      ''Define and document the lawful basis (and, where relevant, complete LIA/consent design) before launch.'',
      ''Verify vendor processor terms, sub-processor controls, retention commitments, and security due diligence.'',
      ''Confirm and document transfer mechanism (e.g., SCCs) and complete transfer risk assessment where required.'']
     @ training_conditions @ automation_conditions"

text \<open>The number of shipping criteria that fail.\<close>

definition failing_criteria :: "request \<Rightarrow> int option \<Rightarrow> nat" where
  "failing_criteria req retention_days =
     (if purpose_ok req then 0 else 1) + (if retention_ok retention_days then 0 else 1)
     + (if has_automation req \<and> \<not> inferred_significant_effects req then 1 else 0)"

text \<open>A retention string that no pattern of the parser matches.\<close>

definition matches_no_pattern :: "string \<Rightarrow> bool" where
  "matches_no_pattern r =
     (let s = lower (strip r)
      in re_search days_re s = None \<and> re_search months_re s = None
         \<and> re_search years_re s = None \<and> \<not> isdigit s)"

definition retention_assumptions :: "string set" where
  "retention_assumptions = {assumption_unparsed, assumption_unspecified}"

definition retention_follow_ups :: "string set" where
  "retention_follow_ups = {follow_up_unparsed, follow_up_unspecified}"

text \<open>Every follow-up question that is not about retention.\<close>

definition other_follow_up_texts :: "string list" where
  "other_follow_up_texts =
     [''Confirm whether automated outputs are used for access, eligibility, pricing, or other similarly significant decisions.'',
      ''Confirm whether automation has any similarly significant effects for individuals (or is advisory only).'',
      ''Confirm the human oversight workflow and how users can contest outcomes where relevant.'',
      ''Confirm whether user content is used for training/reuse, the scope (opt-in/opt-out), and the default setting.'',
      ''Confirm minimisation measures for training datasets (e.g., filtering, exclusion of sensitive content).'',
      ''Confirm the lawful basis and record the rationale in the governance documentation.'',
      ''Confirm vendor roles, data flows, and the status of processor terms and security due diligence.'',
      ''Confirm transfer mechanism and whether a transfer risk assessment is required by internal policy.'']"

text \<open>The words of the training and reuse keywords: a description that contains none of
  them contains no keyword.\<close>

definition training_words :: "string list" where
  "training_words =
     [''train'', ''tune'', ''improve the model'', ''improve model'', ''model improvement'',
      ''learn from'', ''reuse prompts'', ''use prompts to improve'', ''use logs to improve'',
      ''use logs for training'']"

text \<open>No occurrence of \<open>w\<close> lies in \<open>z\<close> or ends in a beginning of \<open>z\<close>.\<close>

definition no_overlap :: "string \<Rightarrow> string \<Rightarrow> bool" where
  "no_overlap w z =
     (\<not> sublist w z \<and> list_all (\<lambda>n. \<not> prefix (drop n w) z) [1..<length w])"

text \<open>The word of a pattern of the form \<^verbatim>\<open>\bword\b\<close>.\<close>

fun word_of :: "regex \<Rightarrow> string option" where
  "word_of (Seq WordB (Seq (Lit v) WordB)) = Some v"
| "word_of r = None"

text \<open>The fields that the scenario of security logging fixes.\<close>

definition security_logging_scenario :: "request \<Rightarrow> bool" where
  "security_logging_scenario req =
     (data_subjects req = Some [''end users'']
      \<and> data_categories req = Some [''content/prompts'', ''usage logs'']
      \<and> processing_operations req = Some [''collection'', ''storage'', ''analysis'', ''logging'']
      \<and> purposes req = Some [''security'']
      \<and> lawful_basis_candidate req = Some ''legitimate interest''
      \<and> retention req = Some ''14 days''
      \<and> vendors_involved req = Some False
      \<and> cross_border_transfers req = Some ''None'')"

subsection \<open>Example requests\<close>

definition blank_request :: request where
  "blank_request =
     \<lparr>feature_name = ''Feature'', feature_description = ''A new feature'',
      product_area = None, jurisdictions = None, data_subjects = None, data_categories = None,
      processing_operations = None, purposes = None, lawful_basis_candidate = None,
      retention = None, vendors_involved = Some False, cross_border_transfers = None,
      risk_appetite = None, open_questions = None\<rparr>"

definition minors_request :: request where
  "minors_request =
     blank_request\<lparr>data_subjects := Some [''School Children''],
       retention := Some ''90 days''\<rparr>"

definition biometric_request :: request where
  "biometric_request = blank_request\<lparr>data_categories := Some ['' Biometric access logs '']\<rparr>"

definition loan_request :: request where
  "loan_request =
     blank_request\<lparr>processing_operations := Some [''Automated decision-making''],
       product_area := Some ''Loan approvals''\<rparr>"

definition long_retention_request :: request where
  "long_retention_request =
     blank_request\<lparr>purposes := Some [''Security''],
       lawful_basis_candidate := Some ''legitimate interest'', retention := Some ''90 days''\<rparr>"

definition security_logging_request :: request where
  "security_logging_request =
     \<lparr>feature_name = ''Abuse monitor'',
      feature_description = ''Flags abusive prompts for the security team'',
      product_area = Some ''Trust and safety'', jurisdictions = Some [''EU''],
      data_subjects = Some [''end users''],
      data_categories = Some [''content/prompts'', ''usage logs''],
      processing_operations = Some [''collection'', ''storage'', ''analysis'', ''logging''],
      purposes = Some [''security''],
      lawful_basis_candidate = Some ''legitimate interest'',
      retention = Some ''14 days'', vendors_involved = Some False,
      cross_border_transfers = Some ''None'', risk_appetite = None, open_questions = None\<rparr>"

definition empty_retention_request :: request where
  "empty_retention_request = blank_request\<lparr>retention := Some []\<rparr>"

definition unparsed_retention_request :: request where
  "unparsed_retention_request = blank_request\<lparr>retention := Some ''until account closure''\<rparr>"

definition superscript_two :: string where
  "superscript_two = [CHR 0xB2]"

section \<open>Lemmas about the model\<close>

subsection \<open>The response\<close>

lemma assess_Inr:
  "assess req = Inr resp \<longleftrightarrow>
     (\<exists>rd. parse_retention_days (retention req) = Inr rd \<and> resp = respond req rd)"
  by (auto simp: assess_def split: sum.splits)

lemma decision_respond:
  "decision (respond req rd) =
     fst (decision_step req rd (fst (risk_patterns req rd)) (snd (risk_patterns req rd)))"
  by (simp add: respond_def Let_def split: prod.splits)

lemma reasons_respond:
  "reasons (respond req rd) =
     fst (snd (decision_step req rd (fst (risk_patterns req rd)) (snd (risk_patterns req rd))))"
  by (simp add: respond_def Let_def split: prod.splits)

lemma conditions_respond:
  "conditions (respond req rd) = dedupe_preserve_order (pending_conditions req rd)"
  by (simp add: respond_def Let_def split: prod.splits)

lemma risks_respond: "risks (respond req rd) = fst (risk_patterns req rd)"
  by (simp add: respond_def Let_def split: prod.splits)

lemma pending_conditions_eq:
  "pending_conditions req rd =
     (let st = decision_step req rd (fst (risk_patterns req rd)) (snd (risk_patterns req rd))
      in if fst st = ''ESCALATE'' then [] else snd (snd st))"
  by (simp add: pending_conditions_def Let_def split: prod.splits)

lemma parse_None: "parse_retention_days None = Inr None"
  by (simp add: parse_retention_days_def)

subsection \<open>Removal of duplicates\<close>

lemma dedupe_loop_eq:
  "dedupe_loop xs seen out = out @ first_occurrences (filter (\<lambda>x. x \<notin> seen) xs)"
proof (induction xs arbitrary: seen out)
  case Nil
  then show ?case by simp
next
  case (Cons x xs)
  have "filter (\<lambda>y. y \<notin> insert x seen) xs = filter (\<lambda>y. y \<noteq> x) (filter (\<lambda>y. y \<notin> seen) xs)"
    by (induction xs) auto
  with Cons show ?case by simp
qed

lemma dedupe_first_occurrences: "dedupe_preserve_order xs = first_occurrences xs"
  by (simp add: dedupe_preserve_order_def dedupe_loop_eq)

lemma set_first_occurrences: "set (first_occurrences xs) = set xs"
  by (induction xs rule: first_occurrences.induct) auto

lemma distinct_first_occurrences: "distinct (first_occurrences xs)"
  by (induction xs rule: first_occurrences.induct) (auto simp: set_first_occurrences)

lemma first_occurrences_distinct: "distinct xs \<Longrightarrow> first_occurrences xs = xs"
proof (induction xs)
  case Nil
  then show ?case by simp
next
  case (Cons x xs)
  then have "filter (\<lambda>y. y \<noteq> x) xs = xs" by (auto intro: filter_True)
  with Cons show ?case by simp
qed

subsection \<open>The decision\<close>

lemma ship_criteria_cases:
  "ship_criteria req rd rs cs = ''SHIP'' \<or> ship_criteria req rd rs cs = ''SHIP WITH CONDITIONS''"
  by (simp add: ship_criteria_def)

lemma decision_step_escalate:
  "fst (decision_step req rd rs cs) = ''ESCALATE'' \<longleftrightarrow>
     has_minors req \<or> has_special_category req
     \<or> (has_automation req \<and> inferred_significant_effects req)"
  using ship_criteria_cases [of req rd rs cs]
  by (auto simp: decision_step_def Let_def)

lemma decision_step_reasons_nonempty: "fst (snd (decision_step req rd rs cs)) \<noteq> []"
  by (simp add: decision_step_def Let_def ship_reasons_def with_conditions_reasons_def)

subsection \<open>Substrings, trimming and lower case\<close>

lemma lower_char_space: "py_isspace c \<Longrightarrow> lower_char c = c"
  by (auto simp: py_isspace_def lower_char_def Let_def)

lemma sublist_drop_prefix:
  assumes "k \<noteq> []" and "\<forall>a\<in>set as. a \<noteq> hd k"
  shows "sublist k (as @ xs) \<longleftrightarrow> sublist k xs"
  using assms
proof (induction as)
  case Nil
  then show ?case by simp
next
  case (Cons a as)
  from Cons.prems have "\<not> prefix k (a # as @ xs)"
    by (cases k) auto
  with Cons show ?case by (simp add: sublist_Cons_right)
qed

lemma sublist_drop_suffix:
  assumes "k \<noteq> []" and "\<forall>a\<in>set as. a \<noteq> last k"
  shows "sublist k (xs @ as) \<longleftrightarrow> sublist k xs"
proof -
  have "sublist (rev k) (rev as @ rev xs) \<longleftrightarrow> sublist (rev k) (rev xs)"
    using assms by (intro sublist_drop_prefix) (auto simp: hd_rev)
  then show ?thesis
    by (metis rev_append sublist_rev)
qed

lemma strip_decompose:
  "\<exists>as bs. s = as @ strip s @ bs \<and> (\<forall>a\<in>set as. py_isspace a) \<and> (\<forall>b\<in>set bs. py_isspace b)"
proof -
  let ?d = "dropWhile py_isspace s"
  have 1: "s = takeWhile py_isspace s @ ?d" by simp
  have 2: "rev ?d = takeWhile py_isspace (rev ?d) @ dropWhile py_isspace (rev ?d)" by simp
  have 3: "?d = strip s @ rev (takeWhile py_isspace (rev ?d))"
    unfolding strip_def by (metis 2 rev_append rev_rev_ident)
  have "s = takeWhile py_isspace s @ strip s @ rev (takeWhile py_isspace (rev ?d))"
    using 1 3 by metis
  moreover have "\<forall>a\<in>set (takeWhile py_isspace s). py_isspace a"
    by (auto dest: set_takeWhileD)
  moreover have "\<forall>b\<in>set (rev (takeWhile py_isspace (rev ?d))). py_isspace b"
    by (auto dest: set_takeWhileD)
  ultimately show ?thesis by blast
qed

lemma sublist_lower_strip:
  assumes "k \<noteq> []" and "\<not> py_isspace (hd k)" and "\<not> py_isspace (last k)"
  shows "sublist k (lower (strip s)) \<longleftrightarrow> sublist k (lower s)"
proof -
  obtain as bs where s: "s = as @ strip s @ bs"
    and as: "\<forall>a\<in>set as. py_isspace a" and bs: "\<forall>b\<in>set bs. py_isspace b"
    using strip_decompose by blast
  have "lower s = lower as @ lower (strip s) @ lower bs"
    by (subst s) (simp add: lower_def)
  moreover have "lower as = as" "lower bs = bs"
    using as bs by (auto simp: lower_def lower_char_space intro: map_idI)
  ultimately have eq: "lower s = as @ (lower (strip s) @ bs)" by simp
  have "sublist k (as @ (lower (strip s) @ bs)) \<longleftrightarrow> sublist k (lower (strip s) @ bs)"
    using assms as by (intro sublist_drop_prefix) auto
  also have "\<dots> \<longleftrightarrow> sublist k (lower (strip s))"
    using assms bs by (intro sublist_drop_suffix) auto
  finally show ?thesis by (simp add: eq)
qed

subsection \<open>The escalation triggers\<close>

lemma mapping_keywords_shape:
  "\<forall>k\<in>set mapping_keywords. k \<noteq> [] \<and> \<not> py_isspace (hd k) \<and> \<not> py_isspace (last k)"
  by code_simp

lemma has_special_category_data_iff:
  "has_special_category_data cs \<longleftrightarrow>
     (\<exists>c\<in>set cs. \<exists>k\<in>set mapping_keywords. sublist k (lower c))"
proof (induction cs)
  case Nil
  then show ?case by simp
next
  case (Cons c cs)
  have hit: "list_ex (\<lambda>kw. sublist kw (lower (strip c))) mapping_keywords
      \<longleftrightarrow> (\<exists>k\<in>set mapping_keywords. sublist k (lower c))"
    using mapping_keywords_shape by (auto simp: list_ex_iff sublist_lower_strip)
  have empty: "lower (strip c) = [] \<Longrightarrow> \<not> (\<exists>k\<in>set mapping_keywords. sublist k (lower c))"
    using hit mapping_keywords_shape by (auto simp: list_ex_iff)
  show ?case
    using Cons hit empty by (auto simp: Let_def)
qed

lemma has_minors_iff: "has_minors req \<longleftrightarrow> mentions_minors req"
  by (auto simp: has_minors_def mentions_minors_def lower_subjects_def list_ex_iff)

lemma has_special_category_iff: "has_special_category req \<longleftrightarrow> mentions_special_category req"
  by (auto simp: has_special_category_def mentions_special_category_def
      has_special_category_data_iff list_ex_iff)

subsection \<open>The example requests\<close>

lemma parse_minors_request: "parse_retention_days (retention minors_request) = Inr (Some 90)"
  by code_simp

lemma assess_minors_request: "assess minors_request = Inr (respond minors_request (Some 90))"
  by (simp add: assess_def parse_minors_request)

lemma assess_blank_request: "assess blank_request = Inr (respond blank_request None)"
  by (simp add: assess_def blank_request_def parse_None)

lemma assess_biometric_request: "assess biometric_request = Inr (respond biometric_request None)"
  by (simp add: assess_def biometric_request_def blank_request_def parse_None)

lemma assess_loan_request: "assess loan_request = Inr (respond loan_request None)"
  by (simp add: assess_def loan_request_def blank_request_def parse_None)

lemma bullet_lines_nonempty: "xs \<noteq> [] \<Longrightarrow> \<exists>t. bullet_lines xs = ''- '' @ t"
proof (cases xs)
  case Nil
  assume "xs \<noteq> []"
  with Nil show ?thesis by simp
next
  case (Cons x ys)
  then show ?thesis by (cases ys) (simp_all add: bullet_lines_def)
qed

subsection \<open>The content-sensitivity pattern\<close>

lemma low_sensitivity_iff: "low_sensitivity req rd \<longleftrightarrow> low_sensitivity_stated req rd"
  by (auto simp: low_sensitivity_def low_sensitivity_stated_def security_purpose_def
      lower_purposes_def list_ex_iff cross_border_ok_def vendor_ok_def flag_def
      split: option.splits)

lemma content_risks_of_patterns:
  "filter is_content_risk (fst (risk_patterns req rd)) = fst (content_pattern req rd)"
proof -
  have "filter is_content_risk (fst (content_pattern req rd)) = fst (content_pattern req rd)"
    by (simp add: content_pattern_def is_content_risk_def content_sensitivity_def
        content_sensitivity_low_def)
  moreover have "filter is_content_risk (fst (storage_pattern rd)) = []"
    by (simp add: storage_pattern_def is_content_risk_def storage_limitation_def
        split: option.splits)
  moreover have "filter is_content_risk (fst (lawful_basis_pattern req)) = []"
    by (simp add: lawful_basis_pattern_def is_content_risk_def lawful_basis_uncertainty_def)
  moreover have "filter is_content_risk (fst (vendor_pattern req)) = []"
    by (simp add: vendor_pattern_def is_content_risk_def vendor_processor_def)
  moreover have "filter is_content_risk (fst (transfers_pattern req)) = []"
    by (simp add: transfers_pattern_def is_content_risk_def international_transfers_def)
  moreover have "filter is_content_risk (fst (training_pattern req)) = []"
    by (simp add: training_pattern_def is_content_risk_def training_or_reuse_user_content_def)
  moreover have "filter is_content_risk (fst (automation_pattern req)) = []"
    by (simp add: automation_pattern_def is_content_risk_def automation_significant_effects_def
        automation_advisory_def)
  ultimately show ?thesis
    by (simp add: risk_patterns_def)
qed

lemma conditions_of_patterns:
  "snd (risk_patterns req rd) = snd (content_pattern req rd) @ later_conditions req rd"
  by (simp add: risk_patterns_def later_conditions_def)

lemma later_conditions_subset: "set (later_conditions req rd) \<subseteq> set all_later_conditions"
proof -
  have "set (snd (storage_pattern rd)) \<subseteq> set all_later_conditions"
    by (simp add: storage_pattern_def all_later_conditions_def split: option.splits)
  moreover have "set (snd (lawful_basis_pattern req)) \<subseteq> set all_later_conditions"
    by (simp add: lawful_basis_pattern_def all_later_conditions_def)
  moreover have "set (snd (vendor_pattern req)) \<subseteq> set all_later_conditions"
    by (simp add: vendor_pattern_def all_later_conditions_def)
  moreover have "set (snd (transfers_pattern req)) \<subseteq> set all_later_conditions"
    by (simp add: transfers_pattern_def all_later_conditions_def)
  moreover have "set (snd (training_pattern req)) \<subseteq> set all_later_conditions"
    by (auto simp: training_pattern_def all_later_conditions_def)
  moreover have "set (snd (automation_pattern req)) \<subseteq> set all_later_conditions"
    by (auto simp: automation_pattern_def all_later_conditions_def)
  ultimately show ?thesis
    by (simp add: later_conditions_def)
qed

lemma all_later_not_content:
  "list_all (\<lambda>c. c \<notin> set content_conditions) (condition_purpose # all_later_conditions)"
  by code_simp

lemma later_conditions_not_content:
  "c \<in> set (later_conditions req rd) \<Longrightarrow> c \<notin> set content_conditions"
  using later_conditions_subset [of req rd] all_later_not_content
  by (auto simp: list_all_iff)

lemma decision_step_conditions:
  "\<exists>extra. snd (snd (decision_step req rd rs cs)) = cs @ extra \<and> set extra \<subseteq> {condition_purpose}"
  by (auto simp: decision_step_def Let_def with_conditions_conditions_def)

lemma pending_conditions_shipping:
  assumes "decision (respond req rd) \<noteq> ''ESCALATE''"
  shows "\<exists>extra. pending_conditions req rd = snd (risk_patterns req rd) @ extra
        \<and> set extra \<subseteq> {condition_purpose}"
  using decision_step_conditions [of req rd "fst (risk_patterns req rd)" "snd (risk_patterns req rd)"]
    assms
  by (auto simp: pending_conditions_eq decision_respond Let_def)

lemma pending_conditions_shape:
  "pending_conditions req rd = []
   \<or> (\<exists>extra. pending_conditions req rd = snd (risk_patterns req rd) @ extra
        \<and> set extra \<subseteq> {condition_purpose})"
  using decision_step_conditions [of req rd "fst (risk_patterns req rd)" "snd (risk_patterns req rd)"]
  by (auto simp: pending_conditions_eq Let_def)

lemma take_first_occurrences:
  "distinct xs \<Longrightarrow> take (length xs) (first_occurrences (xs @ ys)) = xs"
proof (induction xs arbitrary: ys)
  case Nil
  then show ?case by simp
next
  case (Cons x xs)
  then have "filter (\<lambda>y. y \<noteq> x) xs = xs" by (auto intro: filter_True)
  with Cons show ?case by simp
qed

lemma distinct_content_conditions: "distinct content_conditions \<and> length content_conditions = 3"
  by code_simp

subsection \<open>The decision to ship with conditions\<close>

lemma decision_step_with_conditions:
  assumes "fst (decision_step req rd rs cs) = ''SHIP WITH CONDITIONS''"
  shows "decision_step req rd rs cs =
     (''SHIP WITH CONDITIONS'', with_conditions_reasons req rd, cs @ with_conditions_conditions req)"
  using assms by (auto simp: decision_step_def Let_def split: if_splits)

lemma storage_condition_present:
  "\<not> retention_ok rd \<Longrightarrow> storage_condition \<in> set (snd (risk_patterns req rd))"
  by (auto simp: retention_ok_def risk_patterns_def storage_pattern_def split: option.splits)

lemma automation_conditions_present:
  "has_automation req \<Longrightarrow> \<not> inferred_significant_effects req
     \<Longrightarrow> set automation_conditions \<subseteq> set (snd (risk_patterns req rd))"
  by (auto simp: risk_patterns_def automation_pattern_def)

lemma parse_long_retention_request:
  "parse_retention_days (retention long_retention_request) = Inr (Some 90)"
  by code_simp

lemma assess_long_retention_request:
  "assess long_retention_request = Inr (respond long_retention_request (Some 90))"
  by (simp add: assess_def parse_long_retention_request)

lemma decision_long_retention_request:
  "decision (respond long_retention_request (Some 90)) = ''SHIP WITH CONDITIONS''"
proof -
  have "fst (decision_step long_retention_request (Some 90)
      (fst (risk_patterns long_retention_request (Some 90)))
      (snd (risk_patterns long_retention_request (Some 90)))) = ''SHIP WITH CONDITIONS''"
    by code_simp
  then show ?thesis by (simp add: decision_respond)
qed


lemma parse_security_logging_request:
  "parse_retention_days (retention security_logging_request) = Inr (Some 14)"
  by code_simp

lemma assess_security_logging_request:
  "assess security_logging_request = Inr (respond security_logging_request (Some 14))"
  by (simp add: assess_def parse_security_logging_request)

subsection \<open>Searching with a regular expression\<close>

lemma search_at_Some:
  "search_at r prev s = Some gs \<Longrightarrow>
     \<exists>pre t p p' s'. s = pre @ t \<and> (p', s', gs) \<in> set (rmatch r (p, t, []))"
proof (induction s arbitrary: prev)
  case Nil
  show ?case
  proof (cases "rmatch r (prev, [], [])")
    case Nil
    with Nil.prems show ?thesis by simp
  next
    case (Cons st sts)
    obtain p' s' gs' where st: "st = (p', s', gs')" by (cases st)
    with Cons Nil.prems have "gs' = gs" by simp
    with Cons st have "(p', s', gs) \<in> set (rmatch r (prev, [], []))" by simp
    then show ?thesis
      by (intro exI [of _ "[]"] exI [of _ "[]"] exI [of _ prev] exI [of _ p'] exI [of _ s'])
        simp
  qed
next
  case step: (Cons c cs)
  show ?case
  proof (cases "rmatch r (prev, c # cs, [])")
    case Nil
    with step.prems have "search_at r (Some c) cs = Some gs" by simp
    from step.IH [OF this] obtain pre t p p' s' where
      cs: "cs = pre @ t" and m: "(p', s', gs) \<in> set (rmatch r (p, t, []))" by blast
    from cs m show ?thesis
      by (intro exI [of _ "c # pre"] exI [of _ t] exI [of _ p] exI [of _ p'] exI [of _ s']) simp
  next
    case (Cons st sts)
    obtain p' s' gs' where st: "st = (p', s', gs')" by (cases st)
    with Cons step.prems have "gs' = gs" by simp
    with Cons st have "(p', s', gs) \<in> set (rmatch r (prev, c # cs, []))" by simp
    then show ?thesis
      by (intro exI [of _ "[]"] exI [of _ "c # cs"] exI [of _ prev] exI [of _ p'] exI [of _ s'])
        simp
  qed
qed

lemma rmatch_Seq_elim:
  assumes "x \<in> set (rmatch (Seq a b) st)"
  obtains mid where "mid \<in> set (rmatch a st)" and "x \<in> set (rmatch b mid)"
  using assms by auto

lemma word_regex_no_prefix:
  "\<not> prefix w t \<Longrightarrow> rmatch (seqs [WordB, Lit w, WordB]) (p, t, gs) = []"
  by simp

lemma word_regex_prefix:
  "rmatch (seqs [WordB, Lit w, WordB]) (p, t, gs) \<noteq> [] \<Longrightarrow> prefix w t"
  using word_regex_no_prefix by blast

lemma word_regex_sublist:
  assumes "re_search (seqs [WordB, Lit w, WordB]) s \<noteq> None"
  shows "sublist w s"
proof -
  from assms obtain gs where "search_at (seqs [WordB, Lit w, WordB]) None s = Some gs"
    by (auto simp: re_search_def)
  from search_at_Some [OF this] obtain pre t p p' s' where
    s: "s = pre @ t" and m: "(p', s', gs) \<in> set (rmatch (seqs [WordB, Lit w, WordB]) (p, t, []))"
    by blast
  have "\<And>xs. (p', s', gs) \<in> set xs \<Longrightarrow> xs \<noteq> []" by auto
  from this [OF m] have "prefix w t" by (rule word_regex_prefix)
  then obtain u where "t = w @ u" by (auto simp: prefix_def)
  with s show ?thesis by (auto simp: sublist_def)
qed

lemma in_class_Digit: "in_class Digit = py_isdecimal"
  by (rule ext) simp

lemma star_results:
  "(p', s', gs') \<in> set (star k (p, s, gs)) \<Longrightarrow>
     gs' = gs \<and> (\<exists>run. s = run @ s' \<and> list_all (in_class k) run)"
proof (induction s arbitrary: p)
  case Nil
  then show ?case by simp
next
  case (Cons c cs)
  show ?case
  proof (cases "in_class k c \<and> (p', s', gs') \<in> set (star k (Some c, cs, gs))")
    case True
    with Cons.IH [of "Some c"] obtain run where "gs' = gs" "cs = run @ s'" "list_all (in_class k) run"
      by blast
    then have "c # cs = (c # run) @ s' \<and> list_all (in_class k) (c # run)"
      using True by simp
    with \<open>gs' = gs\<close> show ?thesis by blast
  next
    case False
    with Cons.prems have "(p', s', gs') = (p, c # cs, gs)"
      by (auto split: if_splits)
    then have "c # cs = [] @ s' \<and> list_all (in_class k) []" by simp
    with \<open>(p', s', gs') = (p, c # cs, gs)\<close> show ?thesis by blast
  qed
qed

lemma rmatch_groups_grow:
  "(p', s', gs') \<in> set (rmatch r (p, s, gs)) \<Longrightarrow> prefix gs gs'"
proof (induction r arbitrary: p s gs p' s' gs')
  case (Lit w)
  then show ?case by (auto split: if_splits)
next
  case (Cls k)
  then show ?case by (auto split: if_splits list.splits)
next
  case (Star k)
  then show ?case by (auto dest: star_results)
next
  case (Plus k)
  then show ?case by (auto dest: star_results split: if_splits list.splits)
next
  case WordB
  then show ?case by (auto split: if_splits)
next
  case (Seq a b)
  from Seq.prems obtain pm sm gm where
    1: "(pm, sm, gm) \<in> set (rmatch a (p, s, gs))"
    and 2: "(p', s', gs') \<in> set (rmatch b (pm, sm, gm))"
    by auto
  from Seq.IH(1) [OF 1] Seq.IH(2) [OF 2] show ?case
    by (rule prefix_order.trans)
next
  case (Alt a b)
  then show ?case by auto
next
  case (Opt a)
  then show ?case by auto
next
  case (Grp a)
  from Grp.prems obtain gs0 where 1: "(p', s', gs0) \<in> set (rmatch a (p, s, gs))"
    and 2: "gs' = gs0 @ [take (length s - length s') s]"
    by auto
  from Grp.IH [OF 1] 2 show ?case
    by (auto simp: prefix_def)
qed

lemma digits_group:
  assumes "(p', s', gs') \<in> set (rmatch (Grp (Plus Digit)) (p, s, []))"
  shows "\<exists>g. gs' = [g] \<and> g \<noteq> [] \<and> list_all py_isdecimal g"
proof -
  from assms obtain gs0 where inner: "(p', s', gs0) \<in> set (rmatch (Plus Digit) (p, s, []))"
    and g: "gs' = gs0 @ [take (length s - length s') s]"
    by auto
  from inner obtain c cs where s: "s = c # cs" and c: "py_isdecimal c"
    and m: "(p', s', gs0) \<in> set (star Digit (Some c, cs, []))"
    by (auto split: list.splits if_splits)
  from star_results [OF m] obtain run where "gs0 = []" "cs = run @ s'" "list_all py_isdecimal run"
    by (auto simp: in_class_Digit)
  with s c g have "gs' = [c # run] \<and> list_all py_isdecimal (c # run)" by simp
  then show ?thesis by blast
qed

lemma unit_re_group1:
  assumes "re_search (unit_re units) s = Some gs"
  shows "\<exists>g rest. gs = g # rest \<and> g \<noteq> [] \<and> list_all py_isdecimal g"
proof -
  from assms have "search_at (unit_re units) None s = Some gs" by (simp add: re_search_def)
  from search_at_Some [OF this] obtain t p p' s' where
    m: "(p', s', gs) \<in> set (rmatch (unit_re units) (p, t, []))" by blast
  define tail where "tail = seqs [Star Space, Grp (alts (map Lit units)), WordB]"
  have "unit_re units = Seq (Grp (Plus Digit)) tail"
    by (simp add: unit_re_def tail_def)
  with m have "(p', s', gs) \<in> set (rmatch (Seq (Grp (Plus Digit)) tail) (p, t, []))"
    by simp
  then obtain mid where "mid \<in> set (rmatch (Grp (Plus Digit)) (p, t, []))"
    and "(p', s', gs) \<in> set (rmatch tail mid)"
    by (rule rmatch_Seq_elim)
  moreover obtain pm sm gm where "mid = (pm, sm, gm)"
    by (cases mid) auto
  ultimately have a: "(pm, sm, gm) \<in> set (rmatch (Grp (Plus Digit)) (p, t, []))"
    and b: "(p', s', gs) \<in> set (rmatch tail (pm, sm, gm))"
    by blast+
  from digits_group [OF a] obtain g where g: "gm = [g]" "g \<noteq> []" "list_all py_isdecimal g"
    by blast
  from rmatch_groups_grow [OF b] g(1) obtain rest where "gs = g # rest"
    by (auto simp: prefix_def)
  with g show ?thesis by blast
qed

lemma group1_times_unit_re:
  assumes "re_search (unit_re units) s = Some gs"
  shows "\<exists>n. group1_times gs k = Inr (Some n)"
proof -
  from unit_re_group1 [OF assms] obtain g rest where
    "gs = g # rest" "g \<noteq> []" "list_all py_isdecimal g" by blast
  then show ?thesis by (simp add: group1_times_def py_int_def)
qed

lemma parse_nonempty_eq:
  assumes "r \<noteq> []" and "lower (strip r) \<noteq> []"
  shows "parse_retention_days (Some r) =
     (case re_search days_re (lower (strip r)) of
        Some gs \<Rightarrow> group1_times gs 1
      | None \<Rightarrow>
          (case re_search months_re (lower (strip r)) of
             Some gs \<Rightarrow> group1_times gs 30
           | None \<Rightarrow>
               (case re_search years_re (lower (strip r)) of
                  Some gs \<Rightarrow> group1_times gs 365
                | None \<Rightarrow>
                    if isdigit (lower (strip r))
                    then (case py_int (lower (strip r)) of
                            Inl e \<Rightarrow> Inl e | Inr n \<Rightarrow> Inr (Some n))
                    else Inr None)))"
  using assms by (simp add: parse_retention_days_def Let_def)

lemma parse_retention_days_raises:
  assumes "parse_retention_days x = Inl e"
  shows "e = ValueError
     \<and> (\<exists>r. x = Some r \<and> isdigit (lower (strip r))
          \<and> \<not> list_all py_isdecimal (lower (strip r)))"
proof -
  from assms obtain r where x: "x = Some r" and r: "r \<noteq> []"
    by (cases x) (auto simp: parse_retention_days_def split: if_splits)
  let ?s = "lower (strip r)"
  from assms x r have s: "?s \<noteq> []"
    by (auto simp: parse_retention_days_def Let_def split: if_splits)
  note eq = parse_nonempty_eq [OF r s]
  have d: "re_search days_re ?s = None"
  proof (cases "re_search days_re ?s")
    case (Some gs)
    then obtain n where "group1_times gs 1 = Inr (Some n)"
      unfolding days_re_def using group1_times_unit_re by blast
    with Some eq assms x show ?thesis by simp
  qed simp
  have m: "re_search months_re ?s = None"
  proof (cases "re_search months_re ?s")
    case (Some gs)
    then obtain n where "group1_times gs 30 = Inr (Some n)"
      unfolding months_re_def using group1_times_unit_re by blast
    with Some eq d assms x show ?thesis by simp
  qed simp
  have y: "re_search years_re ?s = None"
  proof (cases "re_search years_re ?s")
    case (Some gs)
    then obtain n where "group1_times gs 365 = Inr (Some n)"
      unfolding years_re_def using group1_times_unit_re by blast
    with Some eq d m assms x show ?thesis by simp
  qed simp
  from eq d m y assms x have "isdigit ?s \<and> py_int ?s = Inl e"
    by (cases "isdigit ?s"; cases "py_int ?s") simp_all
  then have "isdigit ?s \<and> \<not> list_all py_isdecimal ?s \<and> e = ValueError"
    using s by (cases e) (auto simp: py_int_def isdigit_def split: if_splits)
  with x show ?thesis by blast
qed

lemma assess_answers:
  assumes "\<And>r. retention req = Some r \<Longrightarrow> isdigit (lower (strip r))
     \<Longrightarrow> list_all py_isdecimal (lower (strip r))"
  shows "\<exists>resp. assess req = Inr resp"
proof (cases "parse_retention_days (retention req)")
  case (Inl e)
  from parse_retention_days_raises [OF this] assms show ?thesis by blast
next
  case (Inr rd)
  then show ?thesis by (simp add: assess_def)
qed

subsection \<open>Retention that cannot be parsed\<close>

lemma parse_unmatched:
  assumes "r \<noteq> []" and "matches_no_pattern r"
  shows "parse_retention_days (Some r) = Inr None"
proof (cases "lower (strip r) = []")
  case True
  with assms(1) show ?thesis by (simp add: parse_retention_days_def)
next
  case False
  from parse_nonempty_eq [OF assms(1) False] assms(2) show ?thesis
    by (simp add: matches_no_pattern_def Let_def)
qed

lemma no_storage_risk_without_days:
  "list_all (\<lambda>x. id_risk x \<noteq> ''storage_limitation'') (fst (risk_patterns req None))"
proof -
  have "list_all (\<lambda>x. id_risk x \<noteq> ''storage_limitation'') (fst (content_pattern req None))"
    by (simp add: content_pattern_def content_sensitivity_def content_sensitivity_low_def)
  moreover have "fst (storage_pattern None) = []"
    by (simp add: storage_pattern_def)
  moreover have "list_all (\<lambda>x. id_risk x \<noteq> ''storage_limitation'') (fst (lawful_basis_pattern req))"
    by (simp add: lawful_basis_pattern_def lawful_basis_uncertainty_def)
  moreover have "list_all (\<lambda>x. id_risk x \<noteq> ''storage_limitation'') (fst (vendor_pattern req))"
    by (simp add: vendor_pattern_def vendor_processor_def)
  moreover have "list_all (\<lambda>x. id_risk x \<noteq> ''storage_limitation'') (fst (transfers_pattern req))"
    by (simp add: transfers_pattern_def international_transfers_def)
  moreover have "list_all (\<lambda>x. id_risk x \<noteq> ''storage_limitation'') (fst (training_pattern req))"
    by (simp add: training_pattern_def training_or_reuse_user_content_def)
  moreover have "list_all (\<lambda>x. id_risk x \<noteq> ''storage_limitation'') (fst (automation_pattern req))"
    by (simp add: automation_pattern_def automation_significant_effects_def
        automation_advisory_def)
  ultimately show ?thesis
    by (simp add: risk_patterns_def)
qed

lemma other_assumptions_not_retention:
  "filter (\<lambda>a. a \<in> retention_assumptions) (fst (automation_notes a e) @ fst (training_notes t)) = []"
proof -
  have "''Automation is present based on selected processing operations.'' \<notin> retention_assumptions"
    by (simp add: retention_assumptions_def assumption_unparsed_def assumption_unspecified_def)
  moreover have "''Training/reuse of user content is inferred from provided inputs or description keywords.''
      \<notin> retention_assumptions"
    by (simp add: retention_assumptions_def assumption_unparsed_def assumption_unspecified_def)
  ultimately show ?thesis
    by (simp add: automation_notes_def training_notes_def)
qed

lemma other_follow_up_texts_not_retention:
  "list_all (\<lambda>q. q \<notin> retention_follow_ups) other_follow_up_texts"
  by code_simp

lemma other_follow_ups_subset:
  "set (snd (automation_notes a e) @ snd (training_notes t) @ other_follow_ups req l)
     \<subseteq> set other_follow_up_texts"
proof -
  have "set (snd (automation_notes a e)) \<subseteq> set other_follow_up_texts"
    by (simp add: automation_notes_def other_follow_up_texts_def)
  moreover have "set (snd (training_notes t)) \<subseteq> set other_follow_up_texts"
    by (simp add: training_notes_def other_follow_up_texts_def)
  moreover have "set (other_follow_ups req l) \<subseteq> set other_follow_up_texts"
    by (auto simp: other_follow_ups_def other_follow_up_texts_def)
  ultimately show ?thesis by simp
qed

lemma other_follow_ups_not_retention:
  "filter (\<lambda>q. q \<in> retention_follow_ups)
     (snd (automation_notes a e) @ snd (training_notes t) @ other_follow_ups req l) = []"
  using other_follow_ups_subset [of a e t req l] other_follow_up_texts_not_retention
  unfolding filter_empty_conv list_all_iff by blast

lemma report_notes_retention:
  "filter (\<lambda>a. a \<in> retention_assumptions) (fst (report_notes req rd))
     = filter (\<lambda>a. a \<in> retention_assumptions) (fst (retention_notes req rd))
   \<and> filter (\<lambda>q. q \<in> retention_follow_ups) (snd (report_notes req rd))
     = filter (\<lambda>q. q \<in> retention_follow_ups) (snd (retention_notes req rd))"
  using other_assumptions_not_retention other_follow_ups_not_retention
  by (simp add: report_notes_def build_assumptions_and_followups_def Let_def)

lemma markdown_respond:
  "markdown (respond req rd) =
     render_markdown req (decision (respond req rd)) (reasons (respond req rd))
       (risks (respond req rd)) (conditions (respond req rd))
       (fst (report_notes req rd)) (snd (report_notes req rd))"
  by (simp add: respond_def Let_def split: prod.splits)

lemma unparsed_retention_request_unmatched: "matches_no_pattern ''until account closure''"
  by code_simp

subsection \<open>The scenario of security logging\<close>

lemma sublist_append_cases:
  assumes "sublist w (d @ z)"
  shows "sublist w d \<or> sublist w z \<or> (\<exists>n. 0 < n \<and> n < length w \<and> prefix (drop n w) z)"
proof -
  from assms consider "sublist w d" | "sublist w z"
    | xs1 xs2 where "w = xs1 @ xs2" "suffix xs1 d" "prefix xs2 z"
    by (auto simp: sublist_append)
  then show ?thesis
  proof cases
    case 3
    show ?thesis
    proof (cases "xs1 = [] \<or> xs2 = []")
      case True
      with 3 show ?thesis by auto
    next
      case False
      with 3 have "0 < length xs1 \<and> length xs1 < length w \<and> prefix (drop (length xs1) w) z"
        by simp
      then show ?thesis by blast
    qed
  qed auto
qed

lemma no_overlap_append:
  assumes "no_overlap w z" and "\<not> sublist w d"
  shows "\<not> sublist w (d @ z)"
proof
  assume "sublist w (d @ z)"
  from sublist_append_cases [OF this] assms obtain n where
    "0 < n" "n < length w" "prefix (drop n w) z"
    by (auto simp: no_overlap_def)
  with assms(1) show False
    by (auto simp: no_overlap_def list_all_iff)
qed

lemma training_words_no_overlap: "list_all (\<lambda>w. no_overlap w '' security'') training_words"
  by code_simp

lemma word_of_Some: "word_of r = Some v \<Longrightarrow> r = seqs [WordB, Lit v, WordB]"
  by (induction r rule: word_of.induct) simp_all

lemma keyword_list_shape:
  "list_all (\<lambda>k. if sublist '' '' (fst k) then list_ex (\<lambda>w. sublist w (fst k)) training_words
                  else (case word_of (snd k) of
                          None \<Rightarrow> False
                        | Some v \<Rightarrow> list_ex (\<lambda>w. sublist w v) training_words))
     keyword_list"
  by code_simp

lemma keyword_hit_training_word:
  assumes "list_ex (keyword_hit h) keyword_list"
  shows "\<exists>w\<in>set training_words. sublist w h"
proof -
  from assms obtain k where k: "k \<in> set keyword_list" and hit: "keyword_hit h k"
    by (auto simp: list_ex_iff)
  from k keyword_list_shape have shape:
    "if sublist '' '' (fst k) then list_ex (\<lambda>w. sublist w (fst k)) training_words
     else (case word_of (snd k) of
             None \<Rightarrow> False
           | Some v \<Rightarrow> list_ex (\<lambda>w. sublist w v) training_words)"
    by (simp add: list_all_iff)
  show ?thesis
  proof (cases "sublist '' '' (fst k)")
    case True
    with shape obtain w where "w \<in> set training_words" "sublist w (fst k)"
      by (auto simp: list_ex_iff)
    moreover from True hit have "sublist (fst k) h"
      by (simp add: keyword_hit_def)
    ultimately show ?thesis
      using sublist_order.order.trans by blast
  next
    case False
    with shape obtain v w where v: "word_of (snd k) = Some v"
      and w: "w \<in> set training_words" "sublist w v"
      by (auto simp: list_ex_iff split: option.splits)
    from False hit have "re_search (snd k) h \<noteq> None"
      by (simp add: keyword_hit_def)
    with word_of_Some [OF v] have "sublist v h"
      using word_regex_sublist by simp
    with w show ?thesis
      using sublist_order.order.trans by blast
  qed
qed

lemma no_training_in_scenario:
  assumes "list_all (\<lambda>w. \<not> sublist w (lower d)) training_words"
  shows "\<not> infer_training_or_reuse d [''collection'', ''storage'', ''analysis'', ''logging'']
           [''security'']"
proof -
  have ops: "\<not> (sublist ''training''
        (lower (join '' '' [''collection'', ''storage'', ''analysis'', ''logging'']))
      \<or> sublist ''train''
        (lower (join '' '' [''collection'', ''storage'', ''analysis'', ''logging''])))"
    by code_simp
  have p: "lower (join '' '' [''security'']) = ''security''"
    by code_simp
  have "\<not> list_ex (keyword_hit (lower d @ '' security'')) keyword_list"
  proof
    assume "list_ex (keyword_hit (lower d @ '' security'')) keyword_list"
    from keyword_hit_training_word [OF this] obtain w where
      w: "w \<in> set training_words" and sub: "sublist w (lower d @ '' security'')" by blast
    from w training_words_no_overlap have "no_overlap w '' security''"
      by (simp add: list_all_iff)
    moreover from w assms have "\<not> sublist w (lower d)"
      by (simp add: list_all_iff)
    ultimately have "\<not> sublist w (lower d @ '' security'')"
      by (rule no_overlap_append)
    with sub show False by contradiction
  qed
  then show ?thesis
    using ops unfolding infer_training_or_reuse_def Let_def p by simp
qed

lemma security_logging_request_signals:
  "\<not> has_minors security_logging_request"
  "\<not> has_special_category security_logging_request"
  "content_logged security_logging_request"
  "\<not> lawful_basis_missing security_logging_request"
  "\<not> has_automation security_logging_request"
  "purpose_ok security_logging_request"
  "security_purpose security_logging_request"
  "cross_border_ok security_logging_request"
  "vendor_ok security_logging_request"
  "\<not> transfers_apply security_logging_request"
  by code_simp+

lemma scenario_signals:
  assumes "security_logging_scenario req"
  shows "\<not> has_minors req" "\<not> has_special_category req" "content_logged req"
    "\<not> lawful_basis_missing req" "\<not> has_automation req" "purpose_ok req"
    "security_purpose req" "cross_border_ok req" "vendor_ok req" "\<not> transfers_apply req"
proof -
  note f = assms [unfolded security_logging_scenario_def]
  have "has_minors req = has_minors security_logging_request"
    using f by (simp add: has_minors_def lower_subjects_def security_logging_request_def)
  then show "\<not> has_minors req"
    by (simp add: security_logging_request_signals)
  have "has_special_category req = has_special_category security_logging_request"
    using f by (simp only: has_special_category_def security_logging_request_def
        request.simps)
  then show "\<not> has_special_category req"
    by (simp add: security_logging_request_signals)
  have "content_logged req = content_logged security_logging_request"
    using f by (simp only: content_logged_def content_like_def logging_like_def
        lower_categories_def lower_ops_def security_logging_request_def request.simps)
  then show "content_logged req"
    by (simp add: security_logging_request_signals)
  have "lawful_basis_missing req = lawful_basis_missing security_logging_request"
    using f by (simp only: lawful_basis_missing_def security_logging_request_def request.simps)
  then show "\<not> lawful_basis_missing req"
    by (simp add: security_logging_request_signals)
  have "has_automation req = has_automation security_logging_request"
    using f by (simp only: has_automation_def lower_ops_def security_logging_request_def
        request.simps)
  then show "\<not> has_automation req"
    by (simp add: security_logging_request_signals)
  have "purpose_ok req = purpose_ok security_logging_request"
    using f by (simp only: purpose_ok_def lower_purposes_def security_logging_request_def
        request.simps)
  then show "purpose_ok req"
    by (simp add: security_logging_request_signals)
  have "security_purpose req = security_purpose security_logging_request"
    using f by (simp only: security_purpose_def lower_purposes_def security_logging_request_def
        request.simps)
  then show "security_purpose req"
    by (simp add: security_logging_request_signals)
  have "cross_border_ok req = cross_border_ok security_logging_request"
    using f by (simp only: cross_border_ok_def security_logging_request_def request.simps)
  then show "cross_border_ok req"
    by (simp add: security_logging_request_signals)
  have "vendor_ok req = vendor_ok security_logging_request"
    using f by (simp only: vendor_ok_def security_logging_request_def request.simps)
  then show "vendor_ok req"
    by (simp add: security_logging_request_signals)
  have "transfers_apply req = transfers_apply security_logging_request"
    using f by (simp only: transfers_apply_def security_logging_request_def request.simps)
  then show "\<not> transfers_apply req"
    by (simp add: security_logging_request_signals)
qed

lemma low_risk_not_material: "material_risks [content_sensitivity_low] = []"
  by code_simp

lemma parse_14_days: "parse_retention_days (Some ''14 days'') = Inr (Some 14)"
  by code_simp

lemma security_logging_request_scenario: "security_logging_scenario security_logging_request"
  by (simp add: security_logging_scenario_def security_logging_request_def)

lemma security_logging_request_words:
  "list_all (\<lambda>w. \<not> sublist w (lower (feature_description security_logging_request)))
     training_words"
  by code_simp

subsection \<open>The retention parser and the training inference on examples\<close>

lemma storage_pattern_iff: "fst (storage_pattern rd) \<noteq> [] \<longleftrightarrow> retention_over_30 rd"
  by (simp add: storage_pattern_def retention_over_30_def split: option.splits)

lemma retention_ok_iff: "retention_ok rd \<longleftrightarrow> \<not> retention_over_30 rd"
  by (auto simp: retention_ok_def retention_over_30_def split: option.splits)

lemma parse_retention_examples:
  "parse_retention_days (Some ''45d'') = Inr (Some 45)"
  "parse_retention_days (Some ''6 months'') = Inr (Some 180)"
  "parse_retention_days (Some ''1 year'') = Inr (Some 365)"
  "parse_retention_days (Some ''90'') = Inr (Some 90)"
  "parse_retention_days (Some '''') = Inr None"
  "parse_retention_days None = Inr None"
  "parse_retention_days (Some ''abc'') = Inr None"
  "parse_retention_days (Some ''   '') = Inr None"
  "parse_retention_days (Some ''2 months, then 10 days'') = Inr (Some 10)"
  "parse_retention_days (Some ''3 years or 6 months'') = Inr (Some 180)"
  "parse_retention_days (Some ''10 dogs'') = Inr None"
  by code_simp+

lemma lower_join: "lower (join sep xs) = join (lower sep) (map lower xs)"
  by (induction sep xs rule: join.induct) (simp_all add: lower_def)

lemma sublist_join:
  assumes "x \<in> set xs" and "sublist k x"
  shows "sublist k (join sep xs)"
  using assms
proof (induction sep xs rule: join.induct)
  case (1 sep)
  then show ?case by simp
next
  case (2 sep y)
  then show ?case by simp
next
  case (3 sep y z zs)
  show ?case
  proof (cases "x = y")
    case True
    with 3 have "sublist k y" by simp
    then show ?thesis
      by (auto simp: sublist_append)
  next
    case False
    with 3 have "sublist k (join sep (z # zs))" by simp
    then show ?thesis
      by (auto simp: sublist_append)
  qed
qed

lemma training_operation:
  assumes "x \<in> set ops" and "sublist ''train'' (lower x)"
  shows "infer_training_or_reuse d ops ps"
proof -
  have "sublist ''train'' (join (lower '' '') (map lower ops))"
    using assms by (intro sublist_join [of "lower x"]) auto
  then show ?thesis
    by (simp add: infer_training_or_reuse_def Let_def lower_join)
qed

lemma training_negation_examples:
  "infer_training_or_reuse ''No training on prompts; we improve the model by hand'' [] [] = False"
  "infer_training_or_reuse ''Logs are not used for training, engineers learn from them'' [] [] = False"
  "infer_training_or_reuse ''Ships without fine-tune; we may train later'' [] [] = False"
  "infer_training_or_reuse ''We train a classifier'' [] [] = True"
  "infer_training_or_reuse ''We use logs to improve ranking'' [] [] = True"
  "infer_training_or_reuse ''Staff training material'' [] [] = False"
  "infer_training_or_reuse ''No training happens'' [''Model Training''] [] = True"
  by code_simp+

subsection \<open>The report\<close>

lemma render_markdown_rationale:
  "\<exists>pre post. render_markdown req d why rs cs as fs
      = pre @ ''## Decision rationale'' @ nl @ rationale_section why @ post"
proof -
  let ?pre = "''# AI Feature Risk Assessment'' @ nl @ nl
     @ ''## Executive summary'' @ nl
     @ ''**Decision:** '' @ d @ nl @ nl
     @ ''## Feature overview'' @ nl
     @ ''**Feature name:** '' @ feature_name req @ nl @ nl
     @ ''## Assumptions'' @ nl
     @ or_else (bullet_lines as) ''_None._'' @ nl @ nl"
  let ?post = "nl @ nl
     @ ''## Conditions (if applicable)'' @ nl
     @ or_else (bullet_lines cs) ''_None._'' @ nl @ nl
     @ ''## Identified risks'' @ nl
     @ or_else (join nl (map risk_line rs)) ''_No risks returned._'' @ nl @ nl
     @ ''## Open questions / Follow-ups'' @ nl
     @ or_else (bullet_lines fs) ''_None._'' @ nl"
  have "render_markdown req d why rs cs as fs
      = ?pre @ ''## Decision rationale'' @ nl @ rationale_section why @ ?post"
    unfolding render_markdown_def by (simp only: append_assoc)
  then show ?thesis by blast
qed

subsection \<open>Removal of duplicates, step by step\<close>

lemma dedupe_preserve_order_Cons:
  "dedupe_preserve_order (x # xs) = x # dedupe_preserve_order (filter (\<lambda>y. y \<noteq> x) xs)"
  by (simp add: dedupe_first_occurrences)

lemma pending_blank_request:
  "pending_conditions blank_request None =
     [''Define and document the lawful basis (and, where relevant, complete LIA/consent design) before launch.'',
      condition_purpose]"
  by code_simp

section \<open>The properties\<close>

text \<open>
  C1. For every request that is answered: if a data subject contains "child", "minor" or
  "children" in any case, or a data category contains a special-category keyword in any
  case, or automation is present together with inferred significant effects, then the
  decision of the response is ESCALATE.
\<close>

theorem escalation_triggers:
  assumes "assess req = Inr resp"
    and "mentions_minors req \<or> mentions_special_category req
         \<or> (has_automation req \<and> inferred_significant_effects req)"
  shows "decision resp = ''ESCALATE''"
proof -
  from assms(1) obtain rd where "resp = respond req rd"
    by (auto simp: assess_Inr)
  with assms(2) show ?thesis
    by (simp add: decision_respond decision_step_escalate has_minors_iff has_special_category_iff)
qed

theorem escalation_triggers_witness:
  "mentions_minors minors_request
   \<and> mentions_special_category biometric_request
   \<and> has_automation loan_request \<and> inferred_significant_effects loan_request
   \<and> (\<exists>r1 r2 r3. assess minors_request = Inr r1 \<and> decision r1 = ''ESCALATE''
        \<and> assess biometric_request = Inr r2 \<and> decision r2 = ''ESCALATE''
        \<and> assess loan_request = Inr r3 \<and> decision r3 = ''ESCALATE'')"
proof -
  have m: "mentions_minors minors_request" by code_simp
  have b: "mentions_special_category biometric_request" by code_simp
  have l: "has_automation loan_request \<and> inferred_significant_effects loan_request" by code_simp
  have "decision (respond minors_request (Some 90)) = ''ESCALATE''"
    using escalation_triggers [OF assess_minors_request] m by blast
  moreover have "decision (respond biometric_request None) = ''ESCALATE''"
    using escalation_triggers [OF assess_biometric_request] b by blast
  moreover have "decision (respond loan_request None) = ''ESCALATE''"
    using escalation_triggers [OF assess_loan_request] l by blast
  ultimately show ?thesis
    using m b l assess_minors_request assess_biometric_request assess_loan_request by blast
qed

text \<open>
  C2. For every request that is answered: if the decision is ESCALATE, the conditions of the
  response are empty, whatever conditions the risk patterns had collected.
\<close>

theorem escalation_clears_conditions:
  assumes "assess req = Inr resp" and "decision resp = ''ESCALATE''"
  shows "conditions resp = []"
proof -
  from assms(1) obtain rd where r: "resp = respond req rd"
    by (auto simp: assess_Inr)
  with assms(2) have "pending_conditions req rd = []"
    by (simp add: decision_respond pending_conditions_eq Let_def)
  with r show ?thesis
    by (simp add: conditions_respond dedupe_first_occurrences)
qed

theorem escalation_clears_conditions_witness:
  "\<exists>resp. assess minors_request = Inr resp \<and> decision resp = ''ESCALATE''
     \<and> snd (risk_patterns minors_request (Some 90)) \<noteq> [] \<and> conditions resp = []"
proof -
  have d: "fst (decision_step minors_request (Some 90)
      (fst (risk_patterns minors_request (Some 90)))
      (snd (risk_patterns minors_request (Some 90)))) = ''ESCALATE''"
    by code_simp
  have c: "snd (risk_patterns minors_request (Some 90)) \<noteq> []"
    by code_simp
  have e: "decision (respond minors_request (Some 90)) = ''ESCALATE''"
    using d by (simp add: decision_respond)
  from escalation_clears_conditions [OF assess_minors_request e] e c assess_minors_request
  show ?thesis by blast
qed

text \<open>
  C8. For every request that is answered, the conditions of the response have no duplicates:
  they are the result of \<^verbatim>\<open>_dedupe_preserve_order\<close> on the conditions collected by the
  risk patterns and the decision. On every list, also one with repeated elements, that
  function keeps the first occurrence of each element and drops the later ones, leaving the
  order of the kept ones unchanged: its result is distinct, has the elements of the list, and
  starts with the head of the list followed by the result for the rest without that head.
\<close>

theorem conditions_without_duplicates:
  assumes "assess req = Inr resp"
  shows "distinct (conditions resp)
     \<and> (\<exists>rd. parse_retention_days (retention req) = Inr rd
          \<and> conditions resp = dedupe_preserve_order (pending_conditions req rd)
          \<and> conditions resp = first_occurrences (pending_conditions req rd))
     \<and> distinct (dedupe_preserve_order xs)
     \<and> set (dedupe_preserve_order xs) = set xs
     \<and> dedupe_preserve_order xs = first_occurrences xs
     \<and> dedupe_preserve_order (x # xs)
         = x # dedupe_preserve_order (filter (\<lambda>y. y \<noteq> x) xs)"
proof -
  from assms obtain rd where p: "parse_retention_days (retention req) = Inr rd"
    and r: "resp = respond req rd"
    by (auto simp: assess_Inr)
  have c: "conditions resp = dedupe_preserve_order (pending_conditions req rd)"
    using r by (simp add: conditions_respond)
  then have f: "conditions resp = first_occurrences (pending_conditions req rd)"
    by (simp add: dedupe_first_occurrences)
  have d: "distinct (conditions resp)"
    by (simp add: f distinct_first_occurrences)
  have g: "distinct (dedupe_preserve_order xs) \<and> set (dedupe_preserve_order xs) = set xs
     \<and> dedupe_preserve_order xs = first_occurrences xs"
    by (simp add: dedupe_first_occurrences distinct_first_occurrences set_first_occurrences)
  from p c f d g dedupe_preserve_order_Cons [of x xs] show ?thesis by blast
qed

theorem conditions_without_duplicates_witness:
  "\<exists>resp. assess blank_request = Inr resp
     \<and> conditions resp =
         [''Define and document the lawful basis (and, where relevant, complete LIA/consent design) before launch.'',
          condition_purpose]
     \<and> distinct (conditions resp)
     \<and> dedupe_preserve_order [''a'', ''b'', ''a'', ''c'', ''b'', ''a''] = [''a'', ''b'', ''c'']"
proof -
  note inst = conditions_without_duplicates
    [OF assess_blank_request, of "[''a'', ''b'', ''a'', ''c'', ''b'', ''a'']" "''z''"]
  have p: "parse_retention_days (retention blank_request) = Inr None"
    by (simp add: blank_request_def parse_None)
  from inst obtain rd where rd: "parse_retention_days (retention blank_request) = Inr rd"
    and f: "conditions (respond blank_request None)
      = first_occurrences (pending_conditions blank_request rd)"
    by blast
  from rd p have "rd = None" by simp
  with f have "conditions (respond blank_request None) =
         [''Define and document the lawful basis (and, where relevant, complete LIA/consent design) before launch.'',
          condition_purpose]"
    by (simp add: pending_blank_request condition_purpose_def)
  moreover from inst have "distinct (conditions (respond blank_request None))"
    by (rule conjunct1)
  moreover from inst have "dedupe_preserve_order [''a'', ''b'', ''a'', ''c'', ''b'', ''a'']
      = first_occurrences [''a'', ''b'', ''a'', ''c'', ''b'', ''a'']"
    by blast
  then have "dedupe_preserve_order [''a'', ''b'', ''a'', ''c'', ''b'', ''a''] = [''a'', ''b'', ''c'']"
    by (simp only: first_occurrences.simps filter.simps list.inject char.inject simp_thms if_True
        if_False refl)
  ultimately show ?thesis using assess_blank_request by blast
qed

text \<open>
  C10. For every request that is answered, the reasons of the response are not empty, so the
  decision-rationale section of the report lists them and never shows its placeholder.
  The report holds that section under its heading.
\<close>

theorem reasons_never_empty:
  assumes "assess req = Inr resp"
  shows "reasons resp \<noteq> []
     \<and> rationale_section (reasons resp) = bullet_lines (reasons resp)
     \<and> rationale_section (reasons resp) \<noteq> ''_None provided._''
     \<and> (\<exists>pre post. markdown resp
           = pre @ ''## Decision rationale'' @ nl @ rationale_section (reasons resp) @ post)"
proof -
  from assms obtain rd where r: "resp = respond req rd"
    by (auto simp: assess_Inr)
  then have ne: "reasons resp \<noteq> []"
    by (simp add: reasons_respond decision_step_reasons_nonempty)
  then obtain t where t: "bullet_lines (reasons resp) = ''- '' @ t"
    using bullet_lines_nonempty by blast
  then have "rationale_section (reasons resp) = bullet_lines (reasons resp)"
    by (simp add: rationale_section_def or_else_def)
  moreover have "\<exists>pre post. markdown resp
      = pre @ ''## Decision rationale'' @ nl @ rationale_section (reasons resp) @ post"
    unfolding r markdown_respond by (rule render_markdown_rationale)
  ultimately show ?thesis using ne t by simp
qed

theorem reasons_never_empty_witness:
  "\<exists>resp. assess blank_request = Inr resp \<and> reasons resp \<noteq> []
     \<and> rationale_section (reasons resp) \<noteq> ''_None provided._''"
  using reasons_never_empty [OF assess_blank_request] assess_blank_request by blast

text \<open>
  C6. For every request that is answered and logs content, exactly one content-sensitivity
  risk is emitted. It is the low variant (impact low, score 2, no condition added) exactly
  when a purpose contains "security" or "safety", the retention parses to at most 30 days,
  no training or reuse is inferred, no vendor is involved, and the cross-border transfers are
  absent or exactly "None" or "Within EEA"; with "none" in lower case the default variant is
  emitted. Otherwise it is the default variant (impact medium, score 6) with its three
  conditions, which open the conditions of the response unless the decision is ESCALATE.
\<close>

theorem content_sensitivity_variants:
  assumes "assess req = Inr resp" and "content_logged req"
  shows "\<exists>rd. parse_retention_days (retention req) = Inr rd
     \<and> (if low_sensitivity_stated req rd
        then filter is_content_risk (risks resp) = [content_sensitivity_low]
             \<and> content_pattern req rd = ([content_sensitivity_low], [])
             \<and> set (conditions resp) \<inter> set content_conditions = {}
        else filter is_content_risk (risks resp) = [content_sensitivity]
             \<and> content_pattern req rd = ([content_sensitivity], content_conditions)
             \<and> (decision resp = ''ESCALATE'' \<or> take 3 (conditions resp) = content_conditions))
     \<and> impact content_sensitivity_low = ''low'' \<and> score content_sensitivity_low = 2
     \<and> impact content_sensitivity = ''medium'' \<and> score content_sensitivity = 6
     \<and> length content_conditions = 3
     \<and> content_pattern (req\<lparr>cross_border_transfers := Some ''none''\<rparr>) rd
         = ([content_sensitivity], content_conditions)"
proof -
  from assms(1) obtain rd where p: "parse_retention_days (retention req) = Inr rd"
    and r: "resp = respond req rd"
    by (auto simp: assess_Inr)
  have risks: "filter is_content_risk (risks resp) = fst (content_pattern req rd)"
    using r by (simp add: risks_respond content_risks_of_patterns)
  have conds: "conditions resp = first_occurrences (pending_conditions req rd)"
    using r by (simp add: conditions_respond dedupe_first_occurrences)
  have facts: "impact content_sensitivity_low = ''low'' \<and> score content_sensitivity_low = 2
     \<and> impact content_sensitivity = ''medium'' \<and> score content_sensitivity = 6
     \<and> length content_conditions = 3"
    by (simp add: content_sensitivity_low_def content_sensitivity_def distinct_content_conditions)
  have "content_logged (req\<lparr>cross_border_transfers := Some ''none''\<rparr>)"
    using assms(2)
    by (simp add: content_logged_def content_like_def logging_like_def lower_categories_def
        lower_ops_def)
  moreover have "\<not> low_sensitivity (req\<lparr>cross_border_transfers := Some ''none''\<rparr>) rd"
    by (simp add: low_sensitivity_def cross_border_ok_def)
  ultimately have lowercase: "content_pattern (req\<lparr>cross_border_transfers := Some ''none''\<rparr>) rd
         = ([content_sensitivity], content_conditions)"
    by (simp add: content_pattern_def)
  show ?thesis
  proof (cases "low_sensitivity_stated req rd")
    case True
    then have cp: "content_pattern req rd = ([content_sensitivity_low], [])"
      using assms(2) by (simp add: content_pattern_def low_sensitivity_iff)
    have "set (pending_conditions req rd) \<subseteq> set (later_conditions req rd) \<union> {condition_purpose}"
      using pending_conditions_shape [of req rd] cp
      by (auto simp: conditions_of_patterns)
    then have "set (conditions resp) \<inter> set content_conditions = {}"
      using later_conditions_not_content [of _ req rd] all_later_not_content
      by (auto simp: conds set_first_occurrences)
    with True cp p risks facts lowercase show ?thesis by auto
  next
    case False
    then have cp: "content_pattern req rd = ([content_sensitivity], content_conditions)"
      using assms(2) by (simp add: content_pattern_def low_sensitivity_iff)
    have "decision resp = ''ESCALATE'' \<or> take 3 (conditions resp) = content_conditions"
    proof (cases "decision resp = ''ESCALATE''")
      case True
      then show ?thesis by simp
    next
      case False
      then obtain extra where
        "pending_conditions req rd = snd (risk_patterns req rd) @ extra"
        using pending_conditions_shipping [of req rd] r by auto
      then have "pending_conditions req rd
          = content_conditions @ (later_conditions req rd @ extra)"
        using cp by (simp add: conditions_of_patterns)
      moreover have "take (length content_conditions)
          (first_occurrences (content_conditions @ (later_conditions req rd @ extra)))
          = content_conditions"
        by (rule take_first_occurrences) (simp add: distinct_content_conditions)
      ultimately have "take (length content_conditions) (conditions resp) = content_conditions"
        by (simp only: conds)
      then show ?thesis by (simp add: distinct_content_conditions)
    qed
    with False cp p risks facts lowercase show ?thesis by auto
  qed
qed

theorem content_sensitivity_variants_witness:
  "content_logged security_logging_request
   \<and> low_sensitivity_stated security_logging_request (Some 14)
   \<and> (\<exists>resp. assess security_logging_request = Inr resp
        \<and> filter is_content_risk (risks resp) = [content_sensitivity_low]
        \<and> set (conditions resp) \<inter> set content_conditions = {})
   \<and> content_pattern (security_logging_request\<lparr>cross_border_transfers := Some ''none''\<rparr>)
        (Some 14) = ([content_sensitivity], content_conditions)"
proof -
  have l: "content_logged security_logging_request" by code_simp
  have s: "low_sensitivity_stated security_logging_request (Some 14)" by code_simp
  from content_sensitivity_variants [OF assess_security_logging_request l]
  have "filter is_content_risk (risks (respond security_logging_request (Some 14)))
          = [content_sensitivity_low]
        \<and> set (conditions (respond security_logging_request (Some 14)))
            \<inter> set content_conditions = {}
        \<and> content_pattern (security_logging_request\<lparr>cross_border_transfers := Some ''none''\<rparr>)
            (Some 14) = ([content_sensitivity], content_conditions)"
    using s by (auto simp: parse_security_logging_request)
  then show ?thesis
    using l s assess_security_logging_request by blast
qed

text \<open>
  C7, as amended. For every request that is answered with SHIP WITH CONDITIONS, the reasons
  are the general reason followed, in this order, by one reason for each failing criterion:
  purposes not aligned, retention exceeded, automation without significant effects. The
  decision appends a condition for the purposes only; the conditions for an exceeded
  retention and for automation come from the storage-limitation and automation risk
  patterns, and are among the conditions of the response.
\<close>

theorem with_conditions_reasons_and_conditions:
  assumes "assess req = Inr resp" and "decision resp = ''SHIP WITH CONDITIONS''"
  shows "\<exists>rd. parse_retention_days (retention req) = Inr rd
     \<and> reasons resp =
         reason_conditions_generic
         # (if purpose_ok req then [] else [reason_purpose])
         @ (if retention_ok rd then [] else [reason_retention])
         @ (if has_automation req \<and> \<not> inferred_significant_effects req
            then [reason_automation_advisory] else [])
     \<and> pending_conditions req rd =
         snd (risk_patterns req rd) @ (if purpose_ok req then [] else [condition_purpose])
     \<and> (purpose_ok req \<or> condition_purpose \<in> set (conditions resp))
     \<and> (retention_ok rd \<or> storage_condition \<in> set (conditions resp))
     \<and> (if has_automation req \<and> \<not> inferred_significant_effects req
         then set automation_conditions \<subseteq> set (conditions resp) else True)"
proof -
  from assms(1) obtain rd where p: "parse_retention_days (retention req) = Inr rd"
    and r: "resp = respond req rd"
    by (auto simp: assess_Inr)
  let ?rs = "fst (risk_patterns req rd)" and ?cs = "snd (risk_patterns req rd)"
  have step: "decision_step req rd ?rs ?cs =
     (''SHIP WITH CONDITIONS'', with_conditions_reasons req rd, ?cs @ with_conditions_conditions req)"
    using assms(2) r by (intro decision_step_with_conditions) (simp add: decision_respond)
  have why: "reasons resp = with_conditions_reasons req rd"
    using r step by (simp add: reasons_respond)
  have pend: "pending_conditions req rd = ?cs @ with_conditions_conditions req"
    using step by (simp add: pending_conditions_eq)
  have conds: "set (conditions resp) = set ?cs \<union> set (with_conditions_conditions req)"
    using r pend by (simp add: conditions_respond dedupe_first_occurrences set_first_occurrences)
  have "purpose_ok req \<or> condition_purpose \<in> set (conditions resp)"
    by (auto simp: conds with_conditions_conditions_def)
  moreover have "retention_ok rd \<or> storage_condition \<in> set (conditions resp)"
    using storage_condition_present [of rd req] by (auto simp: conds)
  moreover have "if has_automation req \<and> \<not> inferred_significant_effects req
         then set automation_conditions \<subseteq> set (conditions resp) else True"
    using automation_conditions_present [of req rd] by (auto simp: conds)
  moreover have "reasons resp =
         reason_conditions_generic
         # (if purpose_ok req then [] else [reason_purpose])
         @ (if retention_ok rd then [] else [reason_retention])
         @ (if has_automation req \<and> \<not> inferred_significant_effects req
            then [reason_automation_advisory] else [])"
    by (simp add: why with_conditions_reasons_def)
  moreover have "pending_conditions req rd =
         snd (risk_patterns req rd) @ (if purpose_ok req then [] else [condition_purpose])"
    by (simp add: pend with_conditions_conditions_def)
  ultimately show ?thesis using p by blast
qed

theorem with_conditions_reasons_and_conditions_witness:
  "\<exists>resp. assess long_retention_request = Inr resp
     \<and> decision resp = ''SHIP WITH CONDITIONS''
     \<and> reasons resp = [reason_conditions_generic, reason_retention]
     \<and> storage_condition \<in> set (conditions resp)"
proof -
  have ok: "\<not> retention_ok (Some 90)" by (simp add: retention_ok_def)
  have p: "purpose_ok long_retention_request" by code_simp
  have a: "\<not> has_automation long_retention_request" by code_simp
  from with_conditions_reasons_and_conditions
    [OF assess_long_retention_request decision_long_retention_request]
  have "reasons (respond long_retention_request (Some 90))
          = [reason_conditions_generic, reason_retention]
        \<and> storage_condition \<in> set (conditions (respond long_retention_request (Some 90)))"
    using ok p a by (auto simp: parse_long_retention_request)
  then show ?thesis
    using assess_long_retention_request decision_long_retention_request by blast
qed

text \<open>
  C7, as stated, fails: the request below ships with conditions because its retention of 90
  days exceeds 30; one criterion fails and the decision appends its reason, but no condition:
  the conditions are those the risk patterns had collected.
\<close>

theorem dedicated_condition_counterexample:
  "assess long_retention_request = Inr (respond long_retention_request (Some 90))
   \<and> decision (respond long_retention_request (Some 90)) = ''SHIP WITH CONDITIONS''
   \<and> failing_criteria long_retention_request (Some 90) = 1
   \<and> \<not> retention_ok (Some 90)
   \<and> reasons (respond long_retention_request (Some 90))
       = [reason_conditions_generic, reason_retention]
   \<and> pending_conditions long_retention_request (Some 90)
       = snd (risk_patterns long_retention_request (Some 90))"
proof -
  have f: "failing_criteria long_retention_request (Some 90) = 1" by code_simp
  have ok: "\<not> retention_ok (Some 90)" by (simp add: retention_ok_def)
  have why: "fst (snd (decision_step long_retention_request (Some 90)
      (fst (risk_patterns long_retention_request (Some 90)))
      (snd (risk_patterns long_retention_request (Some 90)))))
      = [reason_conditions_generic, reason_retention]"
    by code_simp
  have pend: "pending_conditions long_retention_request (Some 90)
       = snd (risk_patterns long_retention_request (Some 90))"
    by code_simp
  show ?thesis
    using f ok why pend assess_long_retention_request decision_long_retention_request
    by (simp add: reasons_respond)
qed


text \<open>
  C9, as amended. For every request whose retention string is present and not empty, and
  after trimming and lower-casing matches none of the three unit patterns and is not made of
  digit characters only, the engine answers: the retention in days is absent, the retention
  criterion holds, no storage-limitation risk is emitted, and among the assumptions and the
  follow-up questions of the report exactly one each is about retention: that the period
  could not be parsed, and the question for the exact period.
\<close>

theorem unparseable_retention:
  assumes "retention req = Some r" and "r \<noteq> []" and "matches_no_pattern r"
  shows "parse_retention_days (retention req) = Inr None
     \<and> retention_ok None
     \<and> (\<exists>resp. assess req = Inr resp
          \<and> list_all (\<lambda>x. id_risk x \<noteq> ''storage_limitation'') (risks resp)
          \<and> markdown resp =
              render_markdown req (decision resp) (reasons resp) (risks resp) (conditions resp)
                (fst (report_notes req None)) (snd (report_notes req None)))
     \<and> filter (\<lambda>a. a \<in> retention_assumptions) (fst (report_notes req None))
         = [assumption_unparsed]
     \<and> filter (\<lambda>q. q \<in> retention_follow_ups) (snd (report_notes req None))
         = [follow_up_unparsed]"
proof -
  have p: "parse_retention_days (retention req) = Inr None"
    using assms by (simp add: parse_unmatched)
  then have a: "assess req = Inr (respond req None)"
    by (simp add: assess_def)
  have "retention_notes req None = ([assumption_unparsed], [follow_up_unparsed])"
    using assms(1,2) by (simp add: retention_notes_def truthy_def)
  then have n: "filter (\<lambda>a. a \<in> retention_assumptions) (fst (report_notes req None))
         = [assumption_unparsed]
     \<and> filter (\<lambda>q. q \<in> retention_follow_ups) (snd (report_notes req None))
         = [follow_up_unparsed]"
    using report_notes_retention [of req None]
    by (simp add: retention_assumptions_def retention_follow_ups_def)
  have "list_all (\<lambda>x. id_risk x \<noteq> ''storage_limitation'') (risks (respond req None))"
    by (simp add: risks_respond no_storage_risk_without_days)
  with a markdown_respond [of req None] p n show ?thesis
    by (simp add: retention_ok_def)
qed


theorem unparseable_retention_witness:
  "retention unparsed_retention_request = Some ''until account closure''
   \<and> matches_no_pattern ''until account closure''
   \<and> parse_retention_days (retention unparsed_retention_request) = Inr None
   \<and> (\<exists>resp. assess unparsed_retention_request = Inr resp)
   \<and> filter (\<lambda>a. a \<in> retention_assumptions) (fst (report_notes unparsed_retention_request None))
       = [assumption_unparsed]"
proof -
  have r: "retention unparsed_retention_request = Some ''until account closure''"
    by (simp add: unparsed_retention_request_def blank_request_def)
  from unparseable_retention [OF r _ unparsed_retention_request_unmatched] r
    unparsed_retention_request_unmatched
  show ?thesis by auto
qed

text \<open>
  C9, as stated, fails for a retention string that is present but empty: it matches no
  pattern and the engine answers, but the assumption and the follow-up question are the ones
  for a retention period that is not specified, not the ones for a period that could not be
  parsed.
\<close>

theorem empty_retention_counterexample:
  "retention empty_retention_request = Some []
   \<and> matches_no_pattern []
   \<and> assess empty_retention_request = Inr (respond empty_retention_request None)
   \<and> filter (\<lambda>a. a \<in> retention_assumptions) (fst (report_notes empty_retention_request None))
       = [assumption_unspecified]
   \<and> filter (\<lambda>q. q \<in> retention_follow_ups) (snd (report_notes empty_retention_request None))
       = [follow_up_unspecified]
   \<and> assumption_unspecified \<noteq> assumption_unparsed
   \<and> follow_up_unspecified \<noteq> follow_up_unparsed"
proof -
  have r: "retention empty_retention_request = Some []"
    by (simp add: empty_retention_request_def blank_request_def)
  have m: "matches_no_pattern []" by code_simp
  have a: "assess empty_retention_request = Inr (respond empty_retention_request None)"
    by (simp add: assess_def r parse_retention_days_def)
  have "retention_notes empty_retention_request None
      = ([assumption_unspecified], [follow_up_unspecified])"
    by (simp add: retention_notes_def truthy_def r)
  then have n: "filter (\<lambda>a. a \<in> retention_assumptions)
        (fst (report_notes empty_retention_request None)) = [assumption_unspecified]
     \<and> filter (\<lambda>q. q \<in> retention_follow_ups)
        (snd (report_notes empty_retention_request None)) = [follow_up_unspecified]"
    using report_notes_retention [of empty_retention_request None]
    by (simp add: retention_assumptions_def retention_follow_ups_def)
  have d: "assumption_unspecified \<noteq> assumption_unparsed
     \<and> follow_up_unspecified \<noteq> follow_up_unparsed"
    by (simp add: assumption_unspecified_def assumption_unparsed_def follow_up_unspecified_def
        follow_up_unparsed_def)
  from r m a n d show ?thesis by blast
qed

text \<open>
  C4. The claim promises a number of days or an absent value for every retention string.
  For the string made of the character superscript two, no unit pattern matches,
  \<^verbatim>\<open>isdigit()\<close> holds and \<^verbatim>\<open>int()\<close> raises: the parser, and with it the
  assessment, ends in a \<^verbatim>\<open>ValueError\<close>.
\<close>

theorem superscript_retention_raises:
  "parse_retention_days (Some superscript_two) = Inl ValueError
   \<and> assess (blank_request\<lparr>retention := Some superscript_two\<rparr>) = Inl ValueError"
proof -
  have p: "parse_retention_days (Some superscript_two) = Inl ValueError" by code_simp
  then show ?thesis by (simp add: assess_def)
qed

text \<open>
  C5. The claim counts "fine-tune" among the whole words that make training or reuse true.
  The source tests \<^verbatim>\<open>" " in k\<close> to tell phrases from patterns, and the pattern for
  "fine-tune" holds a space in its character class: it is compared as a literal text, so
  neither "fine-tune" nor "fine tune" is detected, while "finetune" is.
\<close>

theorem fine_tune_not_detected:
  "infer_training_or_reuse ''We fine-tune the assistant on customer chats'' [] [] = False
   \<and> infer_training_or_reuse ''We fine tune the assistant on customer chats'' [] [] = False
   \<and> infer_training_or_reuse ''We finetune the assistant on customer chats'' [] [] = True"
  by code_simp


text \<open>
  C3. Every request with data subjects ["end users"], data categories ["content/prompts",
  "usage logs"], operations ["collection", "storage", "analysis", "logging"], purposes
  ["security"], lawful basis "legitimate interest", retention "14 days", no vendors and
  cross-border transfers "None", whose description contains none of the training and reuse
  words, is answered with the decision SHIP, with the low content-sensitivity risk (impact
  low, score 2) as the only risk, and with no conditions.
\<close>

theorem security_logging_ships:
  assumes "security_logging_scenario req"
    and "list_all (\<lambda>w. \<not> sublist w (lower (feature_description req))) training_words"
  shows "\<exists>resp. assess req = Inr resp \<and> decision resp = ''SHIP''
     \<and> risks resp = [content_sensitivity_low]
     \<and> id_risk content_sensitivity_low = ''content_sensitivity_low''
     \<and> impact content_sensitivity_low = ''low'' \<and> score content_sensitivity_low = 2
     \<and> conditions resp = []"
proof -
  note f = assms(1) [unfolded security_logging_scenario_def]
  note sig = scenario_signals [OF assms(1)]
  have a: "assess req = Inr (respond req (Some 14))"
    using f by (simp add: assess_def parse_14_days)
  have t: "\<not> training_or_reuse req"
    using f no_training_in_scenario [OF assms(2)]
    by (simp add: training_or_reuse_def or_nil_def)
  have low: "low_sensitivity req (Some 14)"
    using sig t by (simp add: low_sensitivity_def)
  have "content_pattern req (Some 14) = ([content_sensitivity_low], [])"
    using sig low by (simp add: content_pattern_def)
  moreover have "storage_pattern (Some 14) = ([], [])"
    by (simp add: storage_pattern_def)
  moreover have "lawful_basis_pattern req = ([], [])"
    using sig by (simp add: lawful_basis_pattern_def)
  moreover have "vendor_pattern req = ([], [])"
    using sig by (simp add: vendor_pattern_def vendor_ok_def)
  moreover have "transfers_pattern req = ([], [])"
    using sig by (simp add: transfers_pattern_def)
  moreover have "training_pattern req = ([], [])"
    using t by (simp add: training_pattern_def)
  moreover have "automation_pattern req = ([], [])"
    using sig by (simp add: automation_pattern_def)
  ultimately have rp: "risk_patterns req (Some 14) = ([content_sensitivity_low], [])"
    by (simp add: risk_patterns_def)
  have "ship_criteria req (Some 14) [content_sensitivity_low] [] = ''SHIP''"
    using sig by (simp add: ship_criteria_def retention_ok_def low_risk_not_material)
  then have step: "decision_step req (Some 14) [content_sensitivity_low] []
      = (''SHIP'', ship_reasons req, [])"
    using sig by (simp add: decision_step_def)
  have "decision (respond req (Some 14)) = ''SHIP''"
    by (simp add: decision_respond rp step)
  moreover have "risks (respond req (Some 14)) = [content_sensitivity_low]"
    by (simp add: risks_respond rp)
  moreover have "conditions (respond req (Some 14)) = []"
    by (simp add: conditions_respond pending_conditions_eq rp step dedupe_first_occurrences)
  moreover have "id_risk content_sensitivity_low = ''content_sensitivity_low''
     \<and> impact content_sensitivity_low = ''low'' \<and> score content_sensitivity_low = 2"
    by (simp add: content_sensitivity_low_def)
  ultimately show ?thesis using a by blast
qed


theorem security_logging_ships_witness:
  "security_logging_scenario security_logging_request
   \<and> list_all (\<lambda>w. \<not> sublist w (lower (feature_description security_logging_request)))
        training_words
   \<and> (\<exists>resp. assess security_logging_request = Inr resp \<and> decision resp = ''SHIP''
        \<and> risks resp = [content_sensitivity_low] \<and> conditions resp = [])"
  using security_logging_ships [OF security_logging_request_scenario security_logging_request_words]
    security_logging_request_scenario security_logging_request_words
  by blast


end
